theory Spec2Isabelle
  imports Complex_Main "HOL-Library.Word" "HOL-Library.Multiset" "HOL-Library.Log_Nat"
begin

section \<open>Data model of script.js\<close>

text \<open>
  A JavaScript string is a sequence of UTF-16 code units; \<open>===\<close> on strings is equality of
  these sequences, so it is case- and whitespace-sensitive.  String literals of the script
  are ASCII and are written through \<open>js\<close>.
\<close>

type_synonym jsstring = "16 word list"

definition js :: "string \<Rightarrow> jsstring" where
  "js s = map (\<lambda>c. of_nat (of_char c)) s"

text \<open>
  A history item is the object \<open>{ meal: string, date: number }\<close>.  Dates are epoch
  milliseconds as produced by \<open>Date.now()\<close>: integers far below \<open>2^53\<close>, on which the
  script's subtraction, comparison and \<open>Math.max\<close> are exact, hence \<open>int\<close>.
\<close>

record history_entry =
  meal :: jsstring
  date :: int

text \<open>The objects \<open>{ meal, weight }\<close> built inside \<open>pickWeightedMeal\<close>.\<close>

record weighted_meal =
  wm_meal :: jsstring
  weight :: nat

text \<open>
  The state the script reads and writes: the two \<open>localStorage\<close> keys (\<open>None\<close> when the key
  is absent, so that \<open>getItem\<close> yields \<open>null\<close>), the global \<open>currentPickedMeal\<close>
  (\<open>None\<close> is \<open>null\<close>), and the DOM elements it touches.  The two lists hold the items that
  \<open>renderMealList\<close> and \<open>renderHistory\<close> put on the page, \<open>alerts\<close> the texts passed to
  \<open>alert\<close>.
\<close>

record app_state =
  mealStore :: "jsstring list option"
  historyStore :: "history_entry list option"
  currentPickedMeal :: "jsstring option"
  newMealInput :: jsstring
  pickerMessage :: jsstring
  chosenMealDisplay :: jsstring
  resultAreaHidden :: bool
  pickMealBtnHidden :: bool
  mealListUl :: "jsstring list"
  historyUl :: "history_entry list"
  alerts :: "jsstring list"

section \<open>Data management\<close>

definition defaultMeals :: "jsstring list" where
  "defaultMeals = [js ''Tacos'', js ''Spaghetti'', js ''Chicken Stir-Fry'', js ''Sushi'', js ''Steak'']"

definition loadMeals :: "app_state \<Rightarrow> jsstring list" where
  "loadMeals st = (case mealStore st of None \<Rightarrow> defaultMeals | Some meals \<Rightarrow> meals)"

definition loadHistory :: "app_state \<Rightarrow> history_entry list" where
  "loadHistory st = (case historyStore st of None \<Rightarrow> [] | Some history \<Rightarrow> history)"

definition saveMeals :: "jsstring list \<Rightarrow> app_state \<Rightarrow> app_state" where
  "saveMeals meals st = st\<lparr>mealStore := Some meals\<rparr>"

definition saveHistory :: "history_entry list \<Rightarrow> app_state \<Rightarrow> app_state" where
  "saveHistory history st = st\<lparr>historyStore := Some history\<rparr>"

section \<open>Meal list\<close>

definition renderMealList :: "jsstring list \<Rightarrow> app_state \<Rightarrow> app_state" where
  "renderMealList meals st = st\<lparr>mealListUl := meals\<rparr>"

text \<open>
  \<open>String.prototype.trim\<close> removes the code units of ECMAScript's WhiteSpace and
  LineTerminator productions from both ends.
\<close>

definition isWhiteSpace :: "16 word \<Rightarrow> bool" where
  "isWhiteSpace c \<longleftrightarrow> c \<in> set [0x0009, 0x000A, 0x000B, 0x000C, 0x000D, 0x0020, 0x00A0,
     0x1680, 0x2000, 0x2001, 0x2002, 0x2003, 0x2004, 0x2005, 0x2006, 0x2007, 0x2008,
     0x2009, 0x200A, 0x2028, 0x2029, 0x202F, 0x205F, 0x3000, 0xFEFF]"

definition trim :: "jsstring \<Rightarrow> jsstring" where
  "trim s = rev (dropWhile isWhiteSpace (rev (dropWhile isWhiteSpace s)))"

definition addMeal :: "app_state \<Rightarrow> app_state" where
  "addMeal st =
     (let newMeal = trim (newMealInput st) in
      if newMeal \<noteq> [] then
        (let meals = loadMeals st in
         if newMeal \<notin> set meals then
           (let meals' = meals @ [newMeal] in
            (renderMealList meals' (saveMeals meals' st))\<lparr>newMealInput := []\<rparr>)
         else st\<lparr>alerts := alerts st @ [js ''This meal is already on the list!'']\<rparr>)
      else st)"

definition deleteMeal :: "jsstring \<Rightarrow> app_state \<Rightarrow> app_state" where
  "deleteMeal mealName st =
     (let meals = filter (\<lambda>meal. meal \<noteq> mealName) (loadMeals st) in
      renderMealList meals (saveMeals meals st))"

section \<open>History display\<close>

definition RECENT_DAYS_MS :: int where
  "RECENT_DAYS_MS = 30 * 24 * 60 * 60 * 1000"

text \<open>
  \<open>Array.prototype.sort\<close> with a comparator: the standard requires a stable sort, and with
  a consistent comparator the result is the stable insertion of the elements from the back.
  An element goes in front of the first one that \<open>cmp\<close> does not put before it.
\<close>

fun sort_insert :: "('a \<Rightarrow> 'a \<Rightarrow> int) \<Rightarrow> 'a \<Rightarrow> 'a list \<Rightarrow> 'a list" where
  "sort_insert cmp x [] = [x]"
| "sort_insert cmp x (y # ys) =
     (if cmp x y \<le> 0 then x # y # ys else y # sort_insert cmp x ys)"

definition array_sort :: "('a \<Rightarrow> 'a \<Rightarrow> int) \<Rightarrow> 'a list \<Rightarrow> 'a list" where
  "array_sort cmp xs = foldr (sort_insert cmp) xs []"

definition recentHistory :: "history_entry list \<Rightarrow> int \<Rightarrow> history_entry list" where
  "recentHistory history now =
     (let cutoffDate = now - (30 * 24 * 60 * 60 * 1000) in
      take 10 (array_sort (\<lambda>a b. date b - date a)
                 (filter (\<lambda>item. date item > cutoffDate) history)))"

definition renderHistory :: "int \<Rightarrow> history_entry list \<Rightarrow> app_state \<Rightarrow> app_state" where
  "renderHistory now history st = st\<lparr>historyUl := recentHistory history now\<rparr>"

section \<open>Weighted random picker\<close>

datatype pick_error =
  EmptyInputError  \<comment> \<open>the \<open>null\<close> returned with "Please add some meals first!"\<close>
| TypeError        \<comment> \<open>reading \<open>.weight\<close> of \<open>undefined\<close>\<close>

text \<open>Step 1 of \<open>pickWeightedMeal\<close>: the callback of \<open>meals.map\<close>.\<close>

definition lastEaten :: "history_entry list \<Rightarrow> jsstring \<Rightarrow> int" where
  "lastEaten history m =
     foldl (\<lambda>latest item. max latest (date item)) 0 (filter (\<lambda>item. meal item = m) history)"

definition mealWeight :: "history_entry list \<Rightarrow> int \<Rightarrow> jsstring \<Rightarrow> nat" where
  "mealWeight history now m =
     (let isRecent = (now - lastEaten history m < RECENT_DAYS_MS) in
      if isRecent then 1 else 10)"

definition computeWeights :: "jsstring list \<Rightarrow> history_entry list \<Rightarrow> int \<Rightarrow> weighted_meal list" where
  "computeWeights meals history now =
     map (\<lambda>m. \<lparr>wm_meal = m, weight = mealWeight history now m\<rparr>) meals"

text \<open>Step 2: the \<open>forEach\<close> with its inner \<open>for\<close> loop, pushing onto \<open>weightedList\<close>.\<close>

fun pushCopies :: "nat \<Rightarrow> 'a \<Rightarrow> 'a list \<Rightarrow> 'a list" where
  "pushCopies 0 m weightedList = weightedList"
| "pushCopies (Suc k) m weightedList = pushCopies k m (weightedList @ [m])"

definition buildWeightedList :: "weighted_meal list \<Rightarrow> jsstring list" where
  "buildWeightedList mealWeights =
     foldl (\<lambda>weightedList item. pushCopies (weight item) (wm_meal item) weightedList) [] mealWeights"

text \<open>
  Step 3: \<open>Math.floor(Math.random() * weightedList.length)\<close>.  A Number is an IEEE 754
  binary64 value, and \<open>*\<close> returns the exact product rounded to the nearest Number, ties to
  the even significand.  \<open>exponent64 x\<close> is the exponent \<open>e\<close> of the binade
  \<open>2^e \<le> |x| < 2^(e+1)\<close>, not below \<open>-1022\<close> (where the subnormal spacing starts);
  Numbers of that binade are the multiples of \<open>2^(e-52)\<close>.  The results here stay far below
  the overflow threshold \<open>2^1024\<close>, which \<open>round64\<close> leaves out.  \<open>isNumber\<close> holds of
  the reals that are Numbers.
\<close>

definition roundTiesToEven :: "real \<Rightarrow> int" where
  "roundTiesToEven q =
     (let f = \<lfloor>q\<rfloor>; d = q - of_int f
      in if d < 1 / 2 then f else if 1 / 2 < d then f + 1 else if even f then f else f + 1)"

definition exponent64 :: "real \<Rightarrow> int" where
  "exponent64 x =
     (if 1 \<le> \<bar>x\<bar> then bitlen \<lfloor>\<bar>x\<bar>\<rfloor> - 1
      else max (- 1022) (- bitlen (\<lceil>1 / \<bar>x\<bar>\<rceil> - 1)))"

definition round64 :: "real \<Rightarrow> real" where
  "round64 x =
     (let ulp = 2 powi (exponent64 x - 52)
      in of_int (roundTiesToEven (x / ulp)) * ulp)"

definition isNumber :: "real \<Rightarrow> bool" where
  "isNumber x \<longleftrightarrow> round64 x = x"

text \<open>
  \<open>Math.random()\<close> returns a Number \<open>r\<close> with \<open>0 \<le> r < 1\<close>; the length of an array is an
  integer below \<open>2^32\<close>, hence a Number.  Reading an array outside its range gives
  \<open>undefined\<close>, here \<open>None\<close>.
\<close>

definition drawIndex :: "real \<Rightarrow> nat \<Rightarrow> int" where
  "drawIndex r n = \<lfloor>round64 (r * real n)\<rfloor>"

definition arrayGet :: "'a list \<Rightarrow> int \<Rightarrow> 'a option" where
  "arrayGet xs i = (if 0 \<le> i \<and> i < int (length xs) then Some (xs ! nat i) else None)"

definition reducedChanceNote :: "jsstring \<Rightarrow> jsstring" where
  "reducedChanceNote chosenMeal =
     js ''Note: '' @ chosenMeal @ js '' had a reduced chance (weight: 1) as it was eaten recently.''"

text \<open>
  Steps 2 and 3 and the debug note, as a function of \<open>mealWeights\<close> and the random number:
  the chosen meal and the text left in \<open>pickerMessage\<close> (cleared at the start of
  \<open>pickWeightedMeal\<close>).
\<close>

definition selectFromWeights :: "weighted_meal list \<Rightarrow> real \<Rightarrow> pick_error + (jsstring \<times> jsstring)" where
  "selectFromWeights mealWeights r =
     (let weightedList = buildWeightedList mealWeights;
          randomIndex = drawIndex r (length weightedList)
      in case arrayGet weightedList randomIndex of
           None \<Rightarrow> Inl TypeError
         | Some chosenMeal \<Rightarrow>
             (case find (\<lambda>item. wm_meal item = chosenMeal) mealWeights of
                None \<Rightarrow> Inl TypeError
              | Some weightInfo \<Rightarrow>
                  Inr (chosenMeal,
                       if weight weightInfo = 1 then reducedChanceNote chosenMeal else [])))"

definition pickWeightedMeal :: "int \<Rightarrow> real \<Rightarrow> app_state \<Rightarrow> (pick_error + jsstring) \<times> app_state" where
  "pickWeightedMeal now r st =
     (let meals = loadMeals st;
          history = loadHistory st;
          st1 = st\<lparr>pickerMessage := []\<rparr>
      in if length meals = 0 then
           (Inl EmptyInputError, st1\<lparr>pickerMessage := js ''Please add some meals first!''\<rparr>)
         else
           (case selectFromWeights (computeWeights meals history now) r of
              Inl e \<Rightarrow> (Inl e, st1)
            | Inr (chosenMeal, note) \<Rightarrow> (Inr chosenMeal, st1\<lparr>pickerMessage := note\<rparr>)))"

definition resetPickerUI :: "app_state \<Rightarrow> app_state" where
  "resetPickerUI st =
     st\<lparr>currentPickedMeal := None, resultAreaHidden := True,
        pickMealBtnHidden := False, chosenMealDisplay := []\<rparr>"

text \<open>
  \<open>confirmMeal\<close> reads the clock twice: \<open>now\<close> for the new entry, \<open>renderNow\<close> inside
  \<open>renderHistory\<close>.  \<open>!currentPickedMeal\<close> holds for \<open>null\<close> and for the empty string.
\<close>

definition confirmMeal :: "int \<Rightarrow> int \<Rightarrow> app_state \<Rightarrow> app_state" where
  "confirmMeal now renderNow st =
     (case currentPickedMeal st of
        None \<Rightarrow> st
      | Some picked \<Rightarrow>
          if picked = [] then st
          else
            (let history = loadHistory st @ [\<lparr>meal = picked, date = now\<rparr>];
                 st1 = saveHistory history st;
                 st2 = st1\<lparr>pickerMessage :=
                         js ''Confirmed! You are making '' @ picked @ js '' tonight. History updated!''\<rparr>;
                 st3 = resetPickerUI st2
             in renderHistory renderNow history st3))"

text \<open>The result of a pick, for statements about the meal alone.\<close>

definition pickedMeal :: "pick_error + (jsstring \<times> jsstring) \<Rightarrow> jsstring option" where
  "pickedMeal res = (case res of Inl e \<Rightarrow> None | Inr (m, note) \<Rightarrow> Some m)"

definition displayPickedMeal :: "int \<Rightarrow> real \<Rightarrow> app_state \<Rightarrow> app_state" where
  "displayPickedMeal now r st =
     (case pickWeightedMeal now r st of
        (Inl TypeError, st1) \<Rightarrow> st1
      | (Inl EmptyInputError, st1) \<Rightarrow>
          st1\<lparr>currentPickedMeal := None, pickMealBtnHidden := False, resultAreaHidden := True\<rparr>
      | (Inr picked, st1) \<Rightarrow>
          if picked \<noteq> [] then
            st1\<lparr>currentPickedMeal := Some picked, pickMealBtnHidden := True,
                chosenMealDisplay := picked, resultAreaHidden := False\<rparr>
          else
            st1\<lparr>currentPickedMeal := Some picked, pickMealBtnHidden := False,
                resultAreaHidden := True\<rparr>)"

text \<open>
  The state once the \<open>DOMContentLoaded\<close> handler has run in a browser whose
  \<open>localStorage\<close> holds neither key: the default meals are listed, nothing is picked.
  It serves as a concrete input below.
\<close>

definition pageLoaded :: app_state where
  "pageLoaded =
     \<lparr>mealStore = None, historyStore = None, currentPickedMeal = None, newMealInput = [],
      pickerMessage = [], chosenMealDisplay = [], resultAreaHidden = True,
      pickMealBtnHidden = False, mealListUl = defaultMeals, historyUl = [], alerts = []\<rparr>"

section \<open>Notions of the specification\<close>

text \<open>
  The most recent history entry of a meal, as the specification has it: the largest
  timestamp among the entries with this meal name, if there is one.
\<close>

definition latestEntry :: "history_entry list \<Rightarrow> jsstring \<Rightarrow> int option" where
  "latestEntry history m =
     (case map date (filter (\<lambda>item. meal item = m) history) of
        [] \<Rightarrow> None
      | t0 # ts \<Rightarrow> Some (Max (set (t0 # ts))))"


text \<open>The position in the pool at which the copies of entry \<open>j\<close> start.\<close>

definition weightBefore :: "weighted_meal list \<Rightarrow> nat \<Rightarrow> nat" where
  "weightBefore mealWeights j = sum_list (map weight (take j mealWeights))"

section \<open>Number arithmetic\<close>

text \<open>Rounding to an integer is within one half, and does not cross an integer.\<close>

lemma roundTiesToEven_upper: "of_int (roundTiesToEven q) \<le> q + 1 / 2"
  unfolding roundTiesToEven_def Let_def by (auto; linarith)

lemma roundTiesToEven_lower: "q - 1 / 2 \<le> of_int (roundTiesToEven q)"
  unfolding roundTiesToEven_def Let_def by (auto; linarith)

lemma roundTiesToEven_ge: "of_int N \<le> q \<Longrightarrow> N \<le> roundTiesToEven q"
proof -
  assume "of_int N \<le> q"
  then have "N \<le> \<lfloor>q\<rfloor>" by (simp add: le_floor_iff)
  then show ?thesis unfolding roundTiesToEven_def Let_def by auto
qed

lemma roundTiesToEven_le: "q \<le> of_int N \<Longrightarrow> roundTiesToEven q \<le> N"
proof (cases "q = of_int N")
  case True
  then show ?thesis by (simp add: roundTiesToEven_def)
next
  case False
  assume "q \<le> of_int N"
  with False have "q < of_int N" by simp
  then have "\<lfloor>q\<rfloor> < N" by (simp add: floor_less_iff)
  then show ?thesis unfolding roundTiesToEven_def Let_def by auto
qed

lemma roundTiesToEven_of_int [simp]: "roundTiesToEven (of_int N) = N"
  by (simp add: roundTiesToEven_def)

text \<open>The binade of \<open>x\<close>: \<open>2^e \<le> |x| < 2^(e+1)\<close>, except below \<open>2^-1022\<close>.\<close>

lemma exponent64_ge_one:
  assumes "1 \<le> \<bar>x\<bar>"
  shows "0 \<le> exponent64 x"
    and "2 powi exponent64 x \<le> \<bar>x\<bar>"
    and "\<bar>x\<bar> < 2 powi (exponent64 x + 1)"
proof -
  let ?m = "\<lfloor>\<bar>x\<bar>\<rfloor>"
  have m: "0 < ?m" using assms by simp
  have e: "exponent64 x = bitlen ?m - 1" using assms by (simp add: exponent64_def)
  from m have b: "1 \<le> bitlen ?m" by (simp add: bitlen_alt_def)
  then show "0 \<le> exponent64 x" by (simp add: e)
  from bitlen_bounds [OF m]
  have lo: "2 ^ nat (bitlen ?m - 1) \<le> ?m" and hi: "?m < 2 ^ nat (bitlen ?m)" by simp_all
  have "(2::real) powi exponent64 x = 2 ^ nat (bitlen ?m - 1)"
    using b by (simp add: e power_int_nonneg_exp)
  also have "\<dots> = of_int (2 ^ nat (bitlen ?m - 1))" by simp
  also have "\<dots> \<le> of_int ?m" using lo by (simp only: of_int_le_iff)
  also have "\<dots> \<le> \<bar>x\<bar>" by simp
  finally show "2 powi exponent64 x \<le> \<bar>x\<bar>" .
  have "\<bar>x\<bar> < of_int (2 ^ nat (bitlen ?m))"
    using hi by (simp only: floor_less_iff)
  also have "\<dots> = 2 powi (exponent64 x + 1)"
    using b by (simp add: e power_int_nonneg_exp)
  finally show "\<bar>x\<bar> < 2 powi (exponent64 x + 1)" .
qed

lemma exponent64_lt_one:
  assumes "\<bar>x\<bar> < 1" "x \<noteq> 0"
  shows "- 1022 \<le> exponent64 x"
    and "exponent64 x < 0"
    and "2 powi exponent64 x \<le> \<bar>x\<bar> \<or> exponent64 x = - 1022"
    and "\<bar>x\<bar> < 2 powi (exponent64 x + 1)"
proof -
  let ?y = "1 / \<bar>x\<bar>"
  let ?m = "\<lceil>?y\<rceil> - 1"
  let ?k = "bitlen ?m"
  have pos: "0 < \<bar>x\<bar>" using assms(2) by simp
  have y: "1 < ?y" using assms(1) pos by simp
  then have m: "0 < ?m" by (simp add: less_ceiling_iff)
  have e: "exponent64 x = max (- 1022) (- ?k)" using assms(1) by (simp add: exponent64_def)
  from m have k: "1 \<le> ?k" by (simp add: bitlen_alt_def)
  show "- 1022 \<le> exponent64 x" by (simp add: e)
  show "exponent64 x < 0" using k by (simp add: e)
  from bitlen_bounds [OF m]
  have lo: "2 ^ nat (?k - 1) \<le> ?m" and hi: "?m < 2 ^ nat ?k" by simp_all
  have ylo: "of_int ?m < ?y" by simp linarith
  have "(2::real) ^ nat (?k - 1) = of_int (2 ^ nat (?k - 1))" by simp
  also have "\<dots> \<le> of_int ?m" using lo by (simp only: of_int_le_iff)
  also have "\<dots> < ?y" by (rule ylo)
  finally have "(2::real) ^ nat (?k - 1) < 1 / \<bar>x\<bar>" .
  then have "\<bar>x\<bar> * 2 ^ nat (?k - 1) < 1" using pos by (simp add: pos_less_divide_eq mult.commute)
  then have "\<bar>x\<bar> < 1 / 2 ^ nat (?k - 1)" by (simp add: pos_less_divide_eq)
  also have "\<dots> = 2 powi (- ?k + 1)"
    using k by (simp add: power_int_def field_simps)
  also have "\<dots> \<le> 2 powi (exponent64 x + 1)"
    by (rule power_int_increasing) (simp_all add: e)
  finally show "\<bar>x\<bar> < 2 powi (exponent64 x + 1)" .
  have "\<lceil>?y\<rceil> \<le> 2 ^ nat ?k" using hi by simp
  then have "?y \<le> of_int (2 ^ nat ?k)" by (simp only: ceiling_le_iff)
  then have "1 / \<bar>x\<bar> \<le> 2 ^ nat ?k" by simp
  then have "1 \<le> \<bar>x\<bar> * 2 ^ nat ?k" using pos by (simp add: pos_divide_le_eq mult.commute)
  then have "1 / 2 ^ nat ?k \<le> \<bar>x\<bar>" by (simp add: pos_divide_le_eq)
  moreover have "(2::real) powi (- ?k) = 1 / 2 ^ nat ?k"
    using k by (simp add: power_int_def field_simps)
  ultimately have "2 powi (- ?k) \<le> \<bar>x\<bar>" by simp
  then show "2 powi exponent64 x \<le> \<bar>x\<bar> \<or> exponent64 x = - 1022"
    by (auto simp add: e max_def)
qed

lemma exponent64_upper: "x \<noteq> 0 \<Longrightarrow> \<bar>x\<bar> < 2 powi (exponent64 x + 1)"
  using exponent64_ge_one(3) [of x] exponent64_lt_one(4) [of x] by (cases "1 \<le> \<bar>x\<bar>") auto

lemma exponent64_lower: "x \<noteq> 0 \<Longrightarrow> 2 powi exponent64 x \<le> \<bar>x\<bar> \<or> exponent64 x = - 1022"
  using exponent64_ge_one(2) [of x] exponent64_lt_one(3) [of x] by (cases "1 \<le> \<bar>x\<bar>") auto

lemma exponent64_min: "- 1022 \<le> exponent64 x"
proof (cases "1 \<le> \<bar>x\<bar>")
  case True
  then show ?thesis using exponent64_ge_one(1) [of x] by simp
next
  case False
  then show ?thesis by (simp add: exponent64_def)
qed

lemma ulp_pos: "0 < (2::real) powi e"
  by simp

lemma round64_zero [simp]: "round64 0 = 0"
  by (simp add: round64_def roundTiesToEven_def)

lemma round64_nonneg:
  assumes "0 \<le> x"
  shows "0 \<le> round64 x"
proof -
  let ?u = "(2::real) powi (exponent64 x - 52)"
  have "of_int 0 \<le> x / ?u" using assms by simp
  then have "0 \<le> roundTiesToEven (x / ?u)" by (rule roundTiesToEven_ge)
  then show ?thesis by (simp add: round64_def Let_def)
qed

lemma round64_upper: "round64 x \<le> x + 2 powi (exponent64 x - 53)"
proof -
  let ?u = "(2::real) powi (exponent64 x - 52)"
  have u: "0 < ?u" by simp
  have half: "?u / 2 = 2 powi (exponent64 x - 53)"
    using power_int_add [of "2::real" "exponent64 x - 53" 1] by simp
  have "of_int (roundTiesToEven (x / ?u)) \<le> x / ?u + 1 / 2" by (rule roundTiesToEven_upper)
  then have "of_int (roundTiesToEven (x / ?u)) * ?u \<le> (x / ?u + 1 / 2) * ?u"
    using u by (intro mult_right_mono) simp_all
  also have "\<dots> = x + ?u / 2" using u by (simp add: field_simps)
  finally show ?thesis by (simp add: round64_def Let_def half)
qed

text \<open>Rounding stays below \<open>k\<close> when \<open>x\<close> is below \<open>k\<close> by the relative error.\<close>

lemma round64_less:
  assumes "0 \<le> x" and "1 \<le> k" and "x \<le> k * (1 - 1 / 2 ^ 53)"
  shows "round64 x < k"
proof (cases "x = 0")
  case True
  then show ?thesis using assms(2) by simp
next
  case False
  let ?e = "exponent64 x"
  have x: "0 < x" using False assms(1) by simp
  have up: "round64 x \<le> x + 2 powi (?e - 53)" by (rule round64_upper)
  have split: "(2::real) powi (?e - 53) = 2 powi ?e * (1 / 2 ^ 53)"
    using power_int_add [of "2::real" ?e "- 53"] by (simp add: power_int_minus_divide)
  from exponent64_lower [OF False] show ?thesis
  proof
    assume "2 powi ?e \<le> \<bar>x\<bar>"
    then have "2 powi ?e \<le> x" using x by simp
    then have "2 powi (?e - 53) \<le> x * (1 / 2 ^ 53)"
      unfolding split by (intro mult_right_mono) simp_all
    with up have "round64 x \<le> x * (1 + 1 / 2 ^ 53)" by (simp add: algebra_simps)
    also have "\<dots> \<le> (k * (1 - 1 / 2 ^ 53)) * (1 + 1 / 2 ^ 53)"
      using assms(3) by (intro mult_right_mono) simp_all
    also have "\<dots> = k * (1 - 1 / 2 ^ 106)" by (simp add: algebra_simps)
    also have "\<dots> < k * 1" using assms(2) by (intro mult_strict_left_mono) simp_all
    finally show ?thesis by simp
  next
    assume e: "?e = - 1022"
    have "\<bar>x\<bar> < 2 powi (?e + 1)" using False by (rule exponent64_upper)
    then have "x < 2 powi (- 1021)" using x by (simp add: e)
    moreover have "(2::real) powi (- 1021) \<le> 2 powi (- 2)"
      by (rule power_int_increasing) simp_all
    moreover have "(2::real) powi (?e - 53) \<le> 2 powi (- 2)"
      by (rule power_int_increasing) (simp_all add: e)
    moreover have "(2::real) powi (- 2) = 1 / 4" by (simp add: power_int_minus_divide)
    ultimately have "x + 2 powi (?e - 53) < 1" by linarith
    with up assms(2) show ?thesis by linarith
  qed
qed

text \<open>Integers up to \<open>2^53\<close> are binary64 values, so rounding does not cross them.\<close>

lemma round64_ge_int:
  assumes "0 \<le> k" and "k \<le> 2 ^ 53" and "of_int k \<le> x"
  shows "of_int k \<le> round64 x"
proof (cases "k = 0")
  case True
  then show ?thesis using assms(3) round64_nonneg [of x] by simp
next
  case False
  let ?e = "exponent64 x"
  let ?u = "(2::real) powi (?e - 52)"
  have k1: "1 \<le> k" using False assms(1) by simp
  then have x1: "1 \<le> x" using assms(3) by linarith
  then have ax: "1 \<le> \<bar>x\<bar>" by simp
  have e0: "0 \<le> ?e" using ax by (rule exponent64_ge_one)
  have lo: "2 powi ?e \<le> x" using exponent64_ge_one(2) [OF ax] x1 by simp
  have r: "round64 x = of_int (roundTiesToEven (x / ?u)) * ?u" by (simp add: round64_def Let_def)
  show ?thesis
  proof (cases "?e \<le> 52")
    case True
    let ?N = "k * 2 ^ nat (52 - ?e)"
    have inv: "1 / ?u = 2 ^ nat (52 - ?e)"
      using True power_int_minus_divide [of "2::real" "?e - 52"]
      by (simp add: power_int_nonneg_exp)
    have "of_int ?N = of_int k * (1 / ?u)" by (simp add: inv)
    also have "\<dots> \<le> x * (1 / ?u)"
      using assms(3) by (intro mult_right_mono) simp_all
    finally have "of_int ?N \<le> x / ?u" by simp
    then have "?N \<le> roundTiesToEven (x / ?u)" by (rule roundTiesToEven_ge)
    then have "(of_int ?N :: real) \<le> of_int (roundTiesToEven (x / ?u))" by (simp only: of_int_le_iff)
    then have A: "of_int ?N * ?u \<le> of_int (roundTiesToEven (x / ?u)) * ?u"
      by (intro mult_right_mono) simp_all
    have "2 ^ nat (52 - ?e) * ?u = 1" using inv [symmetric] by simp
    then have "of_int k * (2 ^ nat (52 - ?e) * ?u) = of_int k" by simp
    then have "of_int k = of_int ?N * ?u" by (simp add: mult.assoc)
    also note A
    also have "of_int (roundTiesToEven (x / ?u)) * ?u = round64 x" by (simp only: r)
    finally show ?thesis .
  next
    case False
    then have e53: "53 \<le> ?e" by simp
    have split: "(2::real) powi ?e = 2 ^ 52 * ?u"
      using power_int_add [of "2::real" 52 "?e - 52"] by simp
    have "(2::real) ^ 52 * ?u \<le> x" using lo by (simp add: split)
    then have "of_int (2 ^ 52) \<le> x / ?u" by (simp add: pos_le_divide_eq)
    then have "2 ^ 52 \<le> roundTiesToEven (x / ?u)" by (rule roundTiesToEven_ge)
    then have "(of_int (2 ^ 52) :: real) \<le> of_int (roundTiesToEven (x / ?u))"
      by (simp only: of_int_le_iff)
    then have "of_int (2 ^ 52) * ?u \<le> of_int (roundTiesToEven (x / ?u)) * ?u"
      by (intro mult_right_mono) simp_all
    then have "2 powi ?e \<le> round64 x" by (simp add: r split)
    moreover have "(2::real) powi 53 \<le> 2 powi ?e"
      using e53 by (intro power_int_increasing) simp_all
    moreover have "(of_int k :: real) \<le> 2 powi 53"
      using assms(2) by (metis of_int_le_iff of_int_numeral of_int_power power_int_numeral)
    ultimately show ?thesis by linarith
  qed
qed

lemma round64_le_int:
  assumes "0 \<le> x" and "x \<le> of_int K" and "K \<le> 2 ^ 53"
  shows "round64 x \<le> of_int K"
proof (cases "x = 0")
  case True
  then show ?thesis using assms(2) by simp
next
  case False
  note nz = this
  let ?e = "exponent64 x"
  let ?u = "(2::real) powi (?e - 52)"
  have r: "round64 x = of_int (roundTiesToEven (x / ?u)) * ?u" by (simp add: round64_def Let_def)
  show ?thesis
  proof (cases "?e \<le> 52")
    case True
    let ?N = "K * 2 ^ nat (52 - ?e)"
    have inv: "1 / ?u = 2 ^ nat (52 - ?e)"
      using True power_int_minus_divide [of "2::real" "?e - 52"]
      by (simp add: power_int_nonneg_exp)
    have "x * (1 / ?u) \<le> of_int K * (1 / ?u)"
      using assms(2) by (intro mult_right_mono) simp_all
    also have "\<dots> = of_int ?N" by (simp add: inv)
    finally have "x / ?u \<le> of_int ?N" by simp
    then have "roundTiesToEven (x / ?u) \<le> ?N" by (rule roundTiesToEven_le)
    then have "(of_int (roundTiesToEven (x / ?u)) :: real) \<le> of_int ?N" by (simp only: of_int_le_iff)
    then have A: "of_int (roundTiesToEven (x / ?u)) * ?u \<le> of_int ?N * ?u"
      by (intro mult_right_mono) simp_all
    have "2 ^ nat (52 - ?e) * ?u = 1" using inv [symmetric] by simp
    then have "of_int K * (2 ^ nat (52 - ?e) * ?u) = of_int K" by simp
    then have B: "of_int ?N * ?u = of_int K" by (simp add: mult.assoc)
    have "round64 x = of_int (roundTiesToEven (x / ?u)) * ?u" by (rule r)
    also note A
    also note B
    finally show ?thesis .
  next
    case False
    then have e53: "53 \<le> ?e" by simp
    then have "?e \<noteq> - 1022" by simp
    with exponent64_lower [OF nz] have lo: "2 powi ?e \<le> x" using assms(1) by simp
    have K: "(of_int K :: real) \<le> 2 powi 53"
      using assms(3) by (metis of_int_le_iff of_int_numeral of_int_power power_int_numeral)
    have "?e = 53"
    proof (rule ccontr)
      assume "?e \<noteq> 53"
      with e53 have "53 < ?e" by simp
      then have "(2::real) powi 53 < 2 powi ?e" by (intro power_int_strict_increasing) simp_all
      with lo assms(2) K show False by linarith
    qed
    then have e: "?e = 53" .
    have "(2::real) powi 53 \<le> x" using lo by (simp only: e)
    with assms(2) K have x: "x = 2 powi 53" by linarith
    have "x / (2 powi (53 - 52)) = of_int (2 ^ 52)" by (simp add: x)
    then have "roundTiesToEven (x / (2 powi (53 - 52))) = 2 ^ 52"
      by (simp only: roundTiesToEven_of_int)
    then have "round64 x = x" unfolding round64_def Let_def e by (simp add: x)
    then show ?thesis using assms(2) by simp
  qed
qed

lemma exponent64_eqI:
  assumes "2 powi e \<le> \<bar>x\<bar>" and "\<bar>x\<bar> < 2 powi (e + 1)" and "- 1022 \<le> e"
  shows "exponent64 x = e"
proof -
  have nz: "x \<noteq> 0"
  proof
    assume "x = 0"
    with assms(1) have "(2::real) powi e \<le> 0" by simp
    moreover have "0 < (2::real) powi e" by simp
    ultimately show False by linarith
  qed
  let ?e = "exponent64 x"
  have "(2::real) powi e < 2 powi (?e + 1)"
    using assms(1) exponent64_upper [OF nz] by linarith
  then have le: "e \<le> ?e"
    using power_int_increasing [of "?e + 1" e "2::real"] by (cases "e \<le> ?e") auto
  from exponent64_lower [OF nz] have "?e \<le> e"
  proof
    assume "2 powi ?e \<le> \<bar>x\<bar>"
    with assms(2) have "(2::real) powi ?e < 2 powi (e + 1)" by linarith
    then show ?thesis
      using power_int_increasing [of "e + 1" ?e "2::real"] by (cases "?e \<le> e") auto
  next
    assume "?e = - 1022"
    with assms(3) show ?thesis by simp
  qed
  with le show ?thesis by simp
qed

lemma isNumber_below_one:
  assumes "isNumber r" and "0 \<le> r" and "r < 1"
  shows "r \<le> 1 - 1 / 2 ^ 53"
proof (rule ccontr)
  assume "\<not> r \<le> 1 - 1 / 2 ^ 53"
  then have big: "1 - 1 / 2 ^ 53 < r" by simp
  then have half: "1 / 2 \<le> r" by simp
  have "exponent64 r = - 1"
  proof (rule exponent64_eqI)
    show "2 powi (- 1) \<le> \<bar>r\<bar>" using half by simp
    show "\<bar>r\<bar> < 2 powi (- 1 + 1)" using assms(2,3) by simp
  qed simp
  then have "round64 r = of_int (roundTiesToEven (r / 2 powi (- 53))) * 2 powi (- 53)"
    by (simp add: round64_def Let_def)
  also have "\<dots> = of_int (roundTiesToEven (r * 2 ^ 53)) / 2 ^ 53"
    by (simp add: power_int_minus_divide)
  finally have "r = of_int (roundTiesToEven (r * 2 ^ 53)) / 2 ^ 53"
    using assms(1) by (simp add: isNumber_def)
  then have "r * 2 ^ 53 = of_int (roundTiesToEven (r * 2 ^ 53))" by simp
  then obtain z :: int where q: "r * 2 ^ 53 = of_int z" ..
  have "r * 2 ^ 53 < 1 * 2 ^ 53"
    using assms(3) by (intro mult_strict_right_mono) simp_all
  then have "(of_int z :: real) < of_int (2 ^ 53)" using q by simp
  then have up: "z < 2 ^ 53" by (simp only: of_int_less_iff)
  have "(1 - 1 / 2 ^ 53) * 2 ^ 53 < r * 2 ^ 53"
    using big by (intro mult_strict_right_mono) simp_all
  then have "(of_int (2 ^ 53 - 1) :: real) < of_int z" using q by simp
  then have "2 ^ 53 - 1 < z" by (simp only: of_int_less_iff)
  with up show False by simp
qed

text \<open>
  The index: inside the array for a Number below 1, and on which side of an integer it
  falls.
\<close>

lemma drawIndex_range:
  assumes "isNumber r" and "0 \<le> r" and "r < 1" and "0 < n"
  shows "0 \<le> drawIndex r n \<and> drawIndex r n < int n"
proof -
  have x: "0 \<le> r * real n" using assms(2) by simp
  have "r \<le> 1 - 1 / 2 ^ 53" using assms(1-3) by (rule isNumber_below_one)
  then have "r * real n \<le> (1 - 1 / 2 ^ 53) * real n" by (intro mult_right_mono) simp_all
  then have "r * real n \<le> real n * (1 - 1 / 2 ^ 53)" by (simp add: mult.commute)
  with x have "round64 (r * real n) < real n"
    using assms(4) by (intro round64_less) simp_all
  moreover have "0 \<le> round64 (r * real n)" using x by (rule round64_nonneg)
  ultimately show ?thesis by (simp add: drawIndex_def floor_less_iff)
qed

lemma drawIndex_ge:
  assumes "k \<le> 2 ^ 53" and "real k \<le> r * real n"
  shows "int k \<le> drawIndex r n"
proof -
  have "int k \<le> 2 ^ 53" using assms(1) by (metis of_nat_le_iff of_nat_numeral of_nat_power)
  moreover have "of_int (int k) \<le> r * real n" using assms(2) by simp
  ultimately have "of_int (int k) \<le> round64 (r * real n)"
    by (intro round64_ge_int) simp_all
  then show ?thesis by (simp add: drawIndex_def le_floor_iff)
qed

lemma drawIndex_less:
  assumes "0 < k" and "0 \<le> r * real n" and "r * real n \<le> real k * (1 - 1 / 2 ^ 53)"
  shows "drawIndex r n < int k"
proof -
  have "round64 (r * real n) < real k"
    using assms by (intro round64_less) simp_all
  then show ?thesis by (simp add: drawIndex_def floor_less_iff)
qed

lemma drawIndex_ge_D:
  assumes "int k \<le> drawIndex r n" and "0 \<le> r * real n"
  shows "real k * (1 - 1 / 2 ^ 53) \<le> r * real n"
proof (cases "k = 0")
  case True
  then show ?thesis using assms(2) by simp
next
  case False
  show ?thesis
  proof (rule ccontr)
    assume "\<not> real k * (1 - 1 / 2 ^ 53) \<le> r * real n"
    then have "r * real n \<le> real k * (1 - 1 / 2 ^ 53)" by simp
    with False assms(2) have "drawIndex r n < int k" by (intro drawIndex_less) simp_all
    with assms(1) show False by simp
  qed
qed

lemma drawIndex_less_D:
  assumes "drawIndex r n < int k" and "k \<le> 2 ^ 53"
  shows "r * real n < real k"
proof (rule ccontr)
  assume "\<not> r * real n < real k"
  then have "real k \<le> r * real n" by simp
  with assms(2) have "int k \<le> drawIndex r n" by (rule drawIndex_ge)
  with assms(1) show False by simp
qed

lemma drawIndex_floor:
  assumes "0 \<le> r * real n" and "r * real n < 2 ^ 53"
  shows "\<lfloor>r * real n\<rfloor> \<le> drawIndex r n \<and> drawIndex r n \<le> \<lfloor>r * real n\<rfloor> + 1"
proof -
  let ?x = "r * real n"
  have f0: "0 \<le> \<lfloor>?x\<rfloor>" using assms(1) by simp
  have "\<lfloor>?x\<rfloor> < 2 ^ 53" using assms(2) by (simp add: floor_less_iff)
  then have f1: "\<lfloor>?x\<rfloor> + 1 \<le> 2 ^ 53" by simp
  have "of_int \<lfloor>?x\<rfloor> \<le> round64 ?x"
    using f0 f1 by (intro round64_ge_int) simp_all
  moreover have "?x \<le> of_int (\<lfloor>?x\<rfloor> + 1)" by linarith
  then have "round64 ?x \<le> of_int (\<lfloor>?x\<rfloor> + 1)"
    using assms(1) f1 by (intro round64_le_int)
  ultimately show ?thesis
    unfolding drawIndex_def by (simp add: le_floor_iff floor_le_iff)
qed

lemma round64_eval:
  assumes "2 powi e \<le> \<bar>x\<bar>" and "\<bar>x\<bar> < 2 powi (e + 1)" and "- 1022 \<le> e"
  shows "round64 x = of_int (roundTiesToEven (x / 2 powi (e - 52))) * 2 powi (e - 52)"
  by (simp add: round64_def Let_def exponent64_eqI [OF assms])

lemma drawIndex_eqI:
  assumes "real k \<le> r * real n" and "r * real n \<le> real (Suc k) * (1 - 1 / 2 ^ 53)"
    and "k \<le> 2 ^ 53"
  shows "drawIndex r n = int k"
proof -
  have "0 \<le> real k" by simp
  with assms(1) have x: "0 \<le> r * real n" by linarith
  have "int k \<le> drawIndex r n" using assms(3,1) by (rule drawIndex_ge)
  moreover have "drawIndex r n < int (Suc k)"
    using x assms(2) by (intro drawIndex_less) simp_all
  ultimately show ?thesis by simp
qed

text \<open>The Numbers written \<open>0.95\<close>, \<open>0.5\<close> and \<open>0.9090909090909091\<close> in JavaScript.\<close>

lemma round64_95: "round64 (95 / 100) = 4278419646001971 / 4503599627370496"
proof -
  have "round64 (95 / 100)
      = of_int (roundTiesToEven ((95 / 100) / 2 powi (- 1 - 52))) * 2 powi (- 1 - 52)"
    by (rule round64_eval) simp_all
  also have "\<dots> = 4278419646001971 / 4503599627370496"
    by (simp add: power_int_minus_divide roundTiesToEven_def)
  finally show ?thesis .
qed

lemma isNumber_95: "isNumber (4278419646001971 / 4503599627370496)"
proof -
  have "round64 (4278419646001971 / 4503599627370496)
      = of_int (roundTiesToEven ((4278419646001971 / 4503599627370496) / 2 powi (- 1 - 52)))
          * 2 powi (- 1 - 52)"
    by (rule round64_eval) simp_all
  also have "\<dots> = 4278419646001971 / 4503599627370496"
    by (simp add: power_int_minus_divide roundTiesToEven_def)
  finally show ?thesis by (simp only: isNumber_def)
qed

lemma isNumber_half: "isNumber (1 / 2)"
proof -
  have "round64 (1 / 2) = of_int (roundTiesToEven ((1 / 2) / 2 powi (- 1 - 52))) * 2 powi (- 1 - 52)"
    by (rule round64_eval) simp_all
  also have "\<dots> = 1 / 2"
    by (simp add: power_int_minus_divide roundTiesToEven_def)
  finally show ?thesis by (simp only: isNumber_def)
qed

lemma isNumber_10_11: "isNumber (8188362958855447 / 9007199254740992)"
proof -
  have "round64 (8188362958855447 / 9007199254740992)
      = of_int (roundTiesToEven ((8188362958855447 / 9007199254740992) / 2 powi (- 1 - 52)))
          * 2 powi (- 1 - 52)"
    by (rule round64_eval) simp_all
  also have "\<dots> = 8188362958855447 / 9007199254740992"
    by (simp add: power_int_minus_divide roundTiesToEven_def)
  finally show ?thesis by (simp only: isNumber_def)
qed

lemma drawIndex_10_11: "drawIndex (8188362958855447 / 9007199254740992) 11 = 10"
proof -
  have "round64 (8188362958855447 / 9007199254740992 * 11)
      = of_int (roundTiesToEven ((8188362958855447 / 9007199254740992 * 11) / 2 powi (3 - 52)))
          * 2 powi (3 - 52)"
    by (rule round64_eval) simp_all
  also have "\<dots> = 10"
    by (simp add: power_int_minus_divide roundTiesToEven_def)
  finally show ?thesis by (simp add: drawIndex_def)
qed

section \<open>Weights\<close>


text \<open>\<open>latestEntry\<close> is the largest timestamp of the entries that name the meal.\<close>

lemma latestEntry_None_iff:
  "latestEntry history m = None \<longleftrightarrow> m \<notin> meal ` set history"
proof -
  have "latestEntry history m = None \<longleftrightarrow> filter (\<lambda>item. meal item = m) history = []"
    by (cases "filter (\<lambda>item. meal item = m) history") (simp_all add: latestEntry_def)
  also have "\<dots> \<longleftrightarrow> m \<notin> meal ` set history"
    by (auto simp add: filter_empty_conv)
  finally show ?thesis .
qed

lemma latestEntry_Some_iff:
  "latestEntry history m = Some t \<longleftrightarrow>
     (\<exists>e\<in>set history. meal e = m \<and> date e = t) \<and> (\<forall>e\<in>set history. meal e = m \<longrightarrow> date e \<le> t)"
proof (cases "filter (\<lambda>item. meal item = m) history")
  case Nil
  then have "\<forall>e\<in>set history. meal e \<noteq> m" by (simp add: filter_empty_conv)
  with Nil show ?thesis by (auto simp add: latestEntry_def)
next
  case (Cons e es)
  define D where "D = date ` set (e # es)"
  have fin: "finite D" "D \<noteq> {}" by (simp_all add: D_def)
  have D: "D = date ` {e \<in> set history. meal e = m}"
    unfolding D_def Cons [symmetric] by simp
  have "latestEntry history m = Some (Max (set (map date (e # es))))"
    by (simp add: latestEntry_def Cons)
  then have l: "latestEntry history m = Some (Max D)" by (simp add: D_def)
  have "Max D = t \<longleftrightarrow> t \<in> D \<and> (\<forall>d\<in>D. d \<le> t)"
    using fin by (auto simp add: Max_eq_iff)
  then show ?thesis unfolding l D by auto
qed









text \<open>With any clock below 30 days, a meal that was never eaten gets weight 1.\<close>

lemma never_eaten_early_clock:
  assumes "now < RECENT_DAYS_MS"
  shows "mealWeight [] now m = 1"
  using assms by (simp add: mealWeight_def lastEaten_def)


section \<open>The selection pool\<close>

lemma pushCopies_replicate: "pushCopies k m acc = acc @ replicate k m"
  by (induction k arbitrary: acc) (simp_all add: replicate_app_Cons_same)

lemma foldl_pushCopies:
  "foldl (\<lambda>weightedList item. pushCopies (weight item) (wm_meal item) weightedList) acc mws
     = acc @ concat (map (\<lambda>item. replicate (weight item) (wm_meal item)) mws)"
  by (induction mws arbitrary: acc) (simp_all add: pushCopies_replicate)

lemma buildWeightedList_concat:
  "buildWeightedList mws = concat (map (\<lambda>item. replicate (weight item) (wm_meal item)) mws)"
  by (simp add: buildWeightedList_def foldl_pushCopies)

lemma length_buildWeightedList:
  "length (buildWeightedList mws) = sum_list (map weight mws)"
  by (simp add: buildWeightedList_concat length_concat comp_def)

lemma set_buildWeightedList:
  "set (buildWeightedList mws) \<subseteq> wm_meal ` set mws"
  by (auto simp add: buildWeightedList_concat)

lemma block_of_pool:
  assumes "j < length mws"
  shows "take (weight (mws ! j)) (drop (weightBefore mws j) (buildWeightedList mws))
           = replicate (weight (mws ! j)) (wm_meal (mws ! j))"
proof -
  let ?f = "\<lambda>item. replicate (weight item) (wm_meal item)"
  have split: "mws = take j mws @ (mws ! j) # drop (Suc j) mws"
    using assms by (simp add: id_take_nth_drop)
  have len: "length (concat (map ?f (take j mws))) = weightBefore mws j"
    by (simp add: weightBefore_def length_concat comp_def)
  have "buildWeightedList mws = concat (map ?f (take j mws)) @ ?f (mws ! j) @ concat (map ?f (drop (Suc j) mws))"
    by (subst split) (simp add: buildWeightedList_concat)
  then show ?thesis using len by simp
qed

lemma find_wm_meal:
  assumes "m \<in> wm_meal ` set mws"
  shows "\<exists>wi. find (\<lambda>item. wm_meal item = m) mws = Some wi \<and> wi \<in> set mws \<and> wm_meal wi = m"
proof (cases "find (\<lambda>item. wm_meal item = m) mws")
  case None
  then show ?thesis using assms by (auto simp add: find_None_iff)
next
  case (Some wi)
  then show ?thesis by (auto simp add: find_Some_iff)
qed

lemma weightBefore_Suc:
  "j < length mws \<Longrightarrow> weightBefore mws (Suc j) = weightBefore mws j + weight (mws ! j)"
  by (simp add: weightBefore_def take_Suc_conv_app_nth)

lemma weightBefore_length [simp]:
  "weightBefore mws (length mws) = sum_list (map weight mws)"
  by (simp add: weightBefore_def)

lemma weightBefore_append:
  "j \<le> length xs \<Longrightarrow> weightBefore (xs @ ys) j = weightBefore xs j"
  by (simp add: weightBefore_def)

lemma weightBefore_mono:
  assumes "j \<le> k"
  shows "weightBefore mws j \<le> weightBefore mws k"
proof -
  have "take k mws = take j mws @ take (k - j) (drop j mws)"
    using assms by (metis le_add_diff_inverse take_add)
  then show ?thesis by (simp add: weightBefore_def)
qed

lemma block_end_le:
  assumes "j < k" "j < length mws"
  shows "weightBefore mws j + weight (mws ! j) \<le> weightBefore mws k"
  using weightBefore_mono [of "Suc j" k mws] assms by (simp add: weightBefore_Suc)

lemma block_exists:
  "i < sum_list (map weight mws) \<Longrightarrow>
     \<exists>j<length mws. weightBefore mws j \<le> i \<and> i < weightBefore mws j + weight (mws ! j)"
proof (induction mws rule: rev_induct)
  case Nil
  then show ?case by simp
next
  case (snoc x xs)
  show ?case
  proof (cases "i < sum_list (map weight xs)")
    case True
    with snoc.IH obtain j where j: "j < length xs" "weightBefore xs j \<le> i"
      "i < weightBefore xs j + weight (xs ! j)" by blast
    then have "weightBefore (xs @ [x]) j \<le> i \<and> i < weightBefore (xs @ [x]) j + weight ((xs @ [x]) ! j)"
      by (simp add: weightBefore_append nth_append)
    with j(1) show ?thesis by (intro exI [of _ j]) simp
  next
    case False
    have "weightBefore (xs @ [x]) (length xs) = sum_list (map weight xs)"
      by (simp add: weightBefore_append)
    with False snoc.prems show ?thesis
      by (intro exI [of _ "length xs"]) simp
  qed
qed

lemma block_unique:
  assumes "j < length mws" "k < length mws"
    and "weightBefore mws j \<le> i" "i < weightBefore mws j + weight (mws ! j)"
    and "weightBefore mws k \<le> i" "i < weightBefore mws k + weight (mws ! k)"
  shows "j = k"
proof (rule ccontr)
  assume "j \<noteq> k"
  then consider "j < k" | "k < j" by linarith
  then show False
  proof cases
    case 1
    from block_end_le [OF 1 assms(1)] assms show False by simp
  next
    case 2
    from block_end_le [OF 2 assms(2)] assms show False by simp
  qed
qed

lemma pool_nth_block:
  assumes "j < length mws" "weightBefore mws j \<le> i" "i < weightBefore mws j + weight (mws ! j)"
  shows "buildWeightedList mws ! i = wm_meal (mws ! j)"
proof -
  let ?w = "weight (mws ! j)" and ?S = "weightBefore mws j"
  have "weightBefore mws (Suc j) \<le> weightBefore mws (length mws)"
    using assms(1) by (intro weightBefore_mono) simp
  then have bound: "?S + ?w \<le> length (buildWeightedList mws)"
    using assms(1) by (simp add: weightBefore_Suc length_buildWeightedList)
  have "take ?w (drop ?S (buildWeightedList mws)) ! (i - ?S) = replicate ?w (wm_meal (mws ! j)) ! (i - ?S)"
    using block_of_pool [OF assms(1)] by simp
  moreover have "i - ?S < ?w" using assms by simp
  ultimately show ?thesis using assms bound by simp
qed

lemma total_weight_pos:
  assumes "mws \<noteq> []" "list_all (\<lambda>wm. 0 < weight wm) mws"
  shows "0 < sum_list (map weight mws)"
  using assms by (cases mws) simp_all

lemma selectFromWeights_result:
  assumes "0 < sum_list (map weight mws)" "isNumber r" "0 \<le> r" "r < 1"
  shows "\<exists>wi. wi \<in> set mws
           \<and> wm_meal wi = buildWeightedList mws ! nat (drawIndex r (length (buildWeightedList mws)))
           \<and> selectFromWeights mws r =
               Inr (wm_meal wi, if weight wi = 1 then reducedChanceNote (wm_meal wi) else [])"
proof -
  let ?pool = "buildWeightedList mws"
  let ?i = "drawIndex r (length ?pool)"
  have n: "0 < length ?pool" using assms(1) by (simp add: length_buildWeightedList)
  from drawIndex_range [OF assms(2,3,4) n] have i: "0 \<le> ?i" "?i < int (length ?pool)" by simp_all
  then have get: "arrayGet ?pool ?i = Some (?pool ! nat ?i)" by (simp add: arrayGet_def)
  have "nat ?i < length ?pool" using i by simp
  then have "?pool ! nat ?i \<in> set ?pool" by (rule nth_mem)
  then have "?pool ! nat ?i \<in> wm_meal ` set mws" using set_buildWeightedList by blast
  from find_wm_meal [OF this] obtain wi where
    wi: "find (\<lambda>item. wm_meal item = ?pool ! nat ?i) mws = Some wi" "wi \<in> set mws"
      "wm_meal wi = ?pool ! nat ?i" by blast
  have "selectFromWeights mws r =
          Inr (wm_meal wi, if weight wi = 1 then reducedChanceNote (wm_meal wi) else [])"
    by (simp add: selectFromWeights_def Let_def get wi)
  with wi show ?thesis by blast
qed

lemma picked_in_block_iff:
  assumes "0 < sum_list (map weight mws)" "isNumber r" "0 \<le> r" "r < 1" "j < length mws"
    and "distinct (map wm_meal mws)"
  shows "buildWeightedList mws ! nat (drawIndex r (length (buildWeightedList mws))) = wm_meal (mws ! j)
     \<longleftrightarrow> (int (weightBefore mws j) \<le> drawIndex r (length (buildWeightedList mws))
          \<and> drawIndex r (length (buildWeightedList mws)) < int (weightBefore mws j + weight (mws ! j)))"
proof -
  let ?pool = "buildWeightedList mws"
  let ?i = "drawIndex r (length ?pool)"
  have n: "0 < length ?pool" using assms(1) by (simp add: length_buildWeightedList)
  from drawIndex_range [OF assms(2,3,4) n] have i: "0 \<le> ?i" "?i < int (length ?pool)" by simp_all
  then have "nat ?i < sum_list (map weight mws)" by (simp add: length_buildWeightedList)
  from block_exists [OF this] obtain k where k: "k < length mws"
    "weightBefore mws k \<le> nat ?i" "nat ?i < weightBefore mws k + weight (mws ! k)" by blast
  have nth: "?pool ! nat ?i = wm_meal (mws ! k)" using k by (rule pool_nth_block)
  have names: "wm_meal (mws ! k) = wm_meal (mws ! j) \<longleftrightarrow> k = j"
    using assms(5,6) k(1) nth_eq_iff_index_eq [of "map wm_meal mws" k j] by simp
  have "k = j \<longleftrightarrow> (weightBefore mws j \<le> nat ?i \<and> nat ?i < weightBefore mws j + weight (mws ! j))"
    using k block_unique [OF k(1) assms(5) k(2,3)] by blast
  also have "\<dots> \<longleftrightarrow> (int (weightBefore mws j) \<le> ?i \<and> ?i < int (weightBefore mws j + weight (mws ! j)))"
    using i by auto
  finally show ?thesis using nth names by simp
qed

lemma pickedMeal_selectFromWeights:
  assumes "0 < sum_list (map weight mws)" "isNumber r" "0 \<le> r" "r < 1"
  shows "pickedMeal (selectFromWeights mws r)
           = Some (buildWeightedList mws ! nat (drawIndex r (length (buildWeightedList mws))))"
  using selectFromWeights_result [OF assms] by (auto simp add: pickedMeal_def)

lemma block_end_le_total:
  assumes "j < length mws"
  shows "weightBefore mws j + weight (mws ! j) \<le> sum_list (map weight mws)"
proof -
  have "weightBefore mws (Suc j) \<le> weightBefore mws (length mws)"
    using assms by (intro weightBefore_mono) simp
  then show ?thesis using assms by (simp add: weightBefore_Suc)
qed

lemma block_hit_inner:
  assumes "0 < n" and "0 < w" and "S + w \<le> 2 ^ 53"
    and "real S / real n \<le> r"
    and "r \<le> (real S / real n + real w / real n) * (1 - 1 / 2 ^ 53)"
  shows "int S \<le> drawIndex r n \<and> drawIndex r n < int (S + w)"
proof -
  have n: "0 < real n" using assms(1) by simp
  have lo: "real S \<le> r * real n" using assms(4) n by (simp add: pos_divide_le_eq)
  then have x: "0 \<le> r * real n" by (rule order_trans [rotated]) simp
  have eq: "(real S / real n + real w / real n) * c = (real (S + w) * c) / real n" for c :: real
    by (simp add: add_divide_distrib algebra_simps)
  from assms(5) have "r \<le> (real (S + w) * (1 - 1 / 2 ^ 53)) / real n" by (simp only: eq)
  then have hi: "r * real n \<le> real (S + w) * (1 - 1 / 2 ^ 53)"
    using n by (simp only: pos_le_divide_eq)
  have "S \<le> 2 ^ 53" using assms(3) by simp
  then have "int S \<le> drawIndex r n" using lo by (rule drawIndex_ge)
  moreover have "drawIndex r n < int (S + w)"
    using assms(2) x hi by (intro drawIndex_less) simp_all
  ultimately show ?thesis by simp
qed

lemma block_hit_outer:
  assumes "0 < n" and "S + w \<le> 2 ^ 53" and "0 \<le> r"
    and "int S \<le> drawIndex r n" and "drawIndex r n < int (S + w)"
  shows "real S / real n * (1 - 1 / 2 ^ 53) \<le> r \<and> r < real S / real n + real w / real n"
proof -
  have n: "0 < real n" using assms(1) by simp
  have x: "0 \<le> r * real n" using assms(3) by simp
  have "real S * (1 - 1 / 2 ^ 53) \<le> r * real n" using assms(4) x by (rule drawIndex_ge_D)
  then have "(real S * (1 - 1 / 2 ^ 53)) / real n \<le> r" using n by (simp only: pos_divide_le_eq)
  then have lo: "real S / real n * (1 - 1 / 2 ^ 53) \<le> r" by (simp only: times_divide_eq_left)
  have "r * real n < real (S + w)" using assms(5,2) by (rule drawIndex_less_D)
  then have "r < real (S + w) / real n" using n by (simp only: pos_less_divide_eq)
  then have "r < real S / real n + real w / real n" by (simp add: add_divide_distrib)
  with lo show ?thesis ..
qed

text \<open>
  C4 (as amended).  For a non-empty list of weighted meals with positive weights of sum at
  most \<open>2^53\<close> and a random Number \<open>r\<close> with \<open>0 \<le> r < 1\<close>: the pool is the
  concatenation, in input order, of \<open>weight\<close> copies of each meal, so its length is the
  sum of the weights and the copies of entry \<open>j\<close> occupy the positions from
  \<open>weightBefore mws j\<close> on.  The index is the floor of the binary64 product of \<open>r\<close> and
  the length; it lies inside the pool, it is the floor of the exact product or one more,
  and the meal returned is the pool's element there.  With \<open>a = weightBefore mws j / total\<close>
  and \<open>b = a + weight / total\<close>: every \<open>r\<close> with \<open>a \<le> r \<le> b * (1 - 2^-53)\<close> falls on a
  copy of entry \<open>j\<close>, and every \<open>r\<close> that falls on one has \<open>a * (1 - 2^-53) \<le> r < b\<close>;
  when the names are distinct, the same holds for the \<open>r\<close> for which the meal of entry \<open>j\<close>
  is returned.  So the share of \<open>[0, 1)\<close> that selects a meal is its weight over the sum of
  all weights up to an error below \<open>2^-53\<close>.
\<close>

theorem weighted_pool_distribution:
  assumes "mws \<noteq> []" and "list_all (\<lambda>wm. 0 < weight wm) mws"
    and "sum_list (map weight mws) \<le> 2 ^ 53"
    and "isNumber r" and "0 \<le> r" and "r < 1" and "j < length mws"
  shows "buildWeightedList mws = concat (map (\<lambda>wm. replicate (weight wm) (wm_meal wm)) mws)
     \<and> length (buildWeightedList mws) = sum_list (map weight mws)
     \<and> take (weight (mws ! j)) (drop (weightBefore mws j) (buildWeightedList mws))
          = replicate (weight (mws ! j)) (wm_meal (mws ! j))
     \<and> drawIndex r (length (buildWeightedList mws))
          = \<lfloor>round64 (r * real (length (buildWeightedList mws)))\<rfloor>
     \<and> 0 \<le> drawIndex r (length (buildWeightedList mws))
     \<and> drawIndex r (length (buildWeightedList mws)) < int (length (buildWeightedList mws))
     \<and> \<lfloor>r * real (length (buildWeightedList mws))\<rfloor> \<le> drawIndex r (length (buildWeightedList mws))
     \<and> drawIndex r (length (buildWeightedList mws)) \<le> \<lfloor>r * real (length (buildWeightedList mws))\<rfloor> + 1
     \<and> pickedMeal (selectFromWeights mws r)
          = Some (buildWeightedList mws ! nat (drawIndex r (length (buildWeightedList mws))))
     \<and> (real (weightBefore mws j) / real (sum_list (map weight mws)) \<le> r
          \<and> r \<le> (real (weightBefore mws j) / real (sum_list (map weight mws))
                   + real (weight (mws ! j)) / real (sum_list (map weight mws))) * (1 - 1 / 2 ^ 53)
         \<longrightarrow> int (weightBefore mws j) \<le> drawIndex r (length (buildWeightedList mws))
              \<and> drawIndex r (length (buildWeightedList mws)) < int (weightBefore mws j + weight (mws ! j)))
     \<and> (int (weightBefore mws j) \<le> drawIndex r (length (buildWeightedList mws))
          \<and> drawIndex r (length (buildWeightedList mws)) < int (weightBefore mws j + weight (mws ! j))
         \<longrightarrow> real (weightBefore mws j) / real (sum_list (map weight mws)) * (1 - 1 / 2 ^ 53) \<le> r
              \<and> r < real (weightBefore mws j) / real (sum_list (map weight mws))
                     + real (weight (mws ! j)) / real (sum_list (map weight mws)))
     \<and> (distinct (map wm_meal mws) \<longrightarrow>
          (real (weightBefore mws j) / real (sum_list (map weight mws)) \<le> r
            \<and> r \<le> (real (weightBefore mws j) / real (sum_list (map weight mws))
                     + real (weight (mws ! j)) / real (sum_list (map weight mws))) * (1 - 1 / 2 ^ 53)
           \<longrightarrow> pickedMeal (selectFromWeights mws r) = Some (wm_meal (mws ! j)))
          \<and> (pickedMeal (selectFromWeights mws r) = Some (wm_meal (mws ! j))
           \<longrightarrow> real (weightBefore mws j) / real (sum_list (map weight mws)) * (1 - 1 / 2 ^ 53) \<le> r
                \<and> r < real (weightBefore mws j) / real (sum_list (map weight mws))
                       + real (weight (mws ! j)) / real (sum_list (map weight mws))))"
proof -
  let ?pool = "buildWeightedList mws"
  let ?n = "sum_list (map weight mws)"
  let ?i = "drawIndex r (length ?pool)"
  let ?S = "weightBefore mws j" and ?w = "weight (mws ! j)"
  let ?inner = "real ?S / real ?n \<le> r \<and> r \<le> (real ?S / real ?n + real ?w / real ?n) * (1 - 1 / 2 ^ 53)"
  let ?outer = "real ?S / real ?n * (1 - 1 / 2 ^ 53) \<le> r \<and> r < real ?S / real ?n + real ?w / real ?n"
  let ?hit = "int ?S \<le> ?i \<and> ?i < int (?S + ?w)"
  have pos: "0 < ?n" using assms(1,2) by (rule total_weight_pos)
  have len: "length ?pool = ?n" by (rule length_buildWeightedList)
  have n: "0 < length ?pool" using pos len by simp
  have w: "0 < ?w" using assms(2,7) by (simp add: list_all_length)
  have "?S + ?w \<le> ?n" using assms(7) by (rule block_end_le_total)
  with assms(3) have bound: "?S + ?w \<le> 2 ^ 53" by simp
  have c1: "?pool = concat (map (\<lambda>wm. replicate (weight wm) (wm_meal wm)) mws)"
    by (rule buildWeightedList_concat)
  have c3: "take ?w (drop ?S ?pool) = replicate ?w (wm_meal (mws ! j))"
    using assms(7) by (rule block_of_pool)
  have c4: "?i = \<lfloor>round64 (r * real (length ?pool))\<rfloor>" by (simp add: drawIndex_def)
  have range: "0 \<le> ?i \<and> ?i < int (length ?pool)"
    using assms(4,5,6) n by (rule drawIndex_range)
  have "r * real (length ?pool) < 1 * real (length ?pool)"
    using assms(6) n by (intro mult_strict_right_mono) simp_all
  also have "\<dots> \<le> 2 ^ 53" using assms(3) len by simp
  finally have small: "r * real (length ?pool) < 2 ^ 53" .
  have fl: "\<lfloor>r * real (length ?pool)\<rfloor> \<le> ?i \<and> ?i \<le> \<lfloor>r * real (length ?pool)\<rfloor> + 1"
    using assms(5) small by (intro drawIndex_floor) simp_all
  have picked: "pickedMeal (selectFromWeights mws r) = Some (?pool ! nat ?i)"
    using pos assms(4,5,6) by (rule pickedMeal_selectFromWeights)
  have inner: "?hit" if "?inner"
    using block_hit_inner [OF pos w bound, of r] that unfolding len by blast
  have outer: "?outer" if "?hit"
    using block_hit_outer [OF pos bound assms(5)] that unfolding len by blast
  have named: "pickedMeal (selectFromWeights mws r) = Some (wm_meal (mws ! j)) \<longleftrightarrow> ?hit"
    if "distinct (map wm_meal mws)"
    using picked_in_block_iff [OF pos assms(4,5,6,7) that] picked by simp
  show ?thesis
  proof (intro conjI impI)
    show "?pool = concat (map (\<lambda>wm. replicate (weight wm) (wm_meal wm)) mws)" by (rule c1)
    show "length ?pool = ?n" by (rule len)
    show "take ?w (drop ?S ?pool) = replicate ?w (wm_meal (mws ! j))" by (rule c3)
    show "?i = \<lfloor>round64 (r * real (length ?pool))\<rfloor>" by (rule c4)
    show "0 \<le> ?i" using range by simp
    show "?i < int (length ?pool)" using range by simp
    show "\<lfloor>r * real (length ?pool)\<rfloor> \<le> ?i" using fl by simp
    show "?i \<le> \<lfloor>r * real (length ?pool)\<rfloor> + 1" using fl by simp
    show "pickedMeal (selectFromWeights mws r) = Some (?pool ! nat ?i)" by (rule picked)
    show "int ?S \<le> ?i" if "?inner" using inner [OF that] ..
    show "?i < int (?S + ?w)" if "?inner" using inner [OF that] ..
    show "real ?S / real ?n * (1 - 1 / 2 ^ 53) \<le> r" if "?hit" using outer [OF that] ..
    show "r < real ?S / real ?n + real ?w / real ?n" if "?hit" using outer [OF that] ..
    show "pickedMeal (selectFromWeights mws r) = Some (wm_meal (mws ! j))"
      if "distinct (map wm_meal mws)" "?inner"
      using named [OF that(1)] inner [OF that(2)] by blast
    show "real ?S / real ?n * (1 - 1 / 2 ^ 53) \<le> r"
      if "distinct (map wm_meal mws)" "pickedMeal (selectFromWeights mws r) = Some (wm_meal (mws ! j))"
      using named [OF that(1)] that(2) outer by blast
    show "r < real ?S / real ?n + real ?w / real ?n"
      if "distinct (map wm_meal mws)" "pickedMeal (selectFromWeights mws r) = Some (wm_meal (mws ! j))"
      using named [OF that(1)] that(2) outer by blast
  qed
qed

theorem weighted_pool_distribution_witness:
  "[\<lparr>wm_meal = js ''Tacos'', weight = 10\<rparr>, \<lparr>wm_meal = js ''Pizza'', weight = 1\<rparr>] \<noteq> []
   \<and> list_all (\<lambda>wm. 0 < weight wm)
        [\<lparr>wm_meal = js ''Tacos'', weight = 10\<rparr>, \<lparr>wm_meal = js ''Pizza'', weight = 1\<rparr>]
   \<and> sum_list (map weight [\<lparr>wm_meal = js ''Tacos'', weight = 10\<rparr>, \<lparr>wm_meal = js ''Pizza'', weight = 1\<rparr>])
        \<le> 2 ^ 53
   \<and> isNumber (4278419646001971 / 4503599627370496)
   \<and> (0::real) \<le> 4278419646001971 / 4503599627370496
   \<and> (4278419646001971 / 4503599627370496 :: real) < 1
   \<and> (1::nat) < length [\<lparr>wm_meal = js ''Tacos'', weight = 10\<rparr>, \<lparr>wm_meal = js ''Pizza'', weight = 1\<rparr>]
   \<and> distinct (map wm_meal [\<lparr>wm_meal = js ''Tacos'', weight = 10\<rparr>, \<lparr>wm_meal = js ''Pizza'', weight = 1\<rparr>])
   \<and> (10 / 11 :: real) \<le> 4278419646001971 / 4503599627370496
   \<and> (4278419646001971 / 4503599627370496 :: real) \<le> (10 / 11 + 1 / 11) * (1 - 1 / 2 ^ 53)
   \<and> buildWeightedList [\<lparr>wm_meal = js ''Tacos'', weight = 10\<rparr>, \<lparr>wm_meal = js ''Pizza'', weight = 1\<rparr>]
        = replicate 10 (js ''Tacos'') @ [js ''Pizza'']
   \<and> drawIndex (4278419646001971 / 4503599627370496) 11 = 10
   \<and> pickedMeal (selectFromWeights
        [\<lparr>wm_meal = js ''Tacos'', weight = 10\<rparr>, \<lparr>wm_meal = js ''Pizza'', weight = 1\<rparr>]
        (4278419646001971 / 4503599627370496))
        = Some (js ''Pizza'')"
proof -
  let ?mws = "[\<lparr>wm_meal = js ''Tacos'', weight = 10\<rparr>, \<lparr>wm_meal = js ''Pizza'', weight = 1\<rparr>]"
  let ?r = "4278419646001971 / 4503599627370496 :: real"
  have h1: "?mws \<noteq> []" by simp
  have h2: "list_all (\<lambda>wm. 0 < weight wm) ?mws" by simp
  have h3: "sum_list (map weight ?mws) \<le> 2 ^ 53" by simp
  have h4: "isNumber ?r" by (rule isNumber_95)
  have h5: "0 \<le> ?r" by simp
  have h6: "?r < 1" by simp
  have h7: "(1::nat) < length ?mws" by simp
  have d: "distinct (map wm_meal ?mws)" by (simp add: js_def)
  have i1: "(10 / 11 :: real) \<le> ?r" by simp
  have i2: "?r \<le> (10 / 11 + 1 / 11) * (1 - 1 / 2 ^ 53)" by simp
  have S: "weightBefore ?mws 1 = 10" by (simp add: weightBefore_def)
  have N: "sum_list (map weight ?mws) = 11" by simp
  have W: "weight (?mws ! 1) = 1" by simp
  have M: "wm_meal (?mws ! 1) = js ''Pizza''" by simp
  note T = weighted_pool_distribution [OF h1 h2 h3 h4 h5 h6 h7]
  have pool: "buildWeightedList ?mws = replicate 10 (js ''Tacos'') @ [js ''Pizza'']"
    using T [THEN conjunct1] by simp
  have len: "length (buildWeightedList ?mws) = 11"
    using T [THEN conjunct2, THEN conjunct1] unfolding N .
  have inner: "real (weightBefore ?mws 1) / real (sum_list (map weight ?mws)) \<le> ?r
       \<and> ?r \<le> (real (weightBefore ?mws 1) / real (sum_list (map weight ?mws))
                + real (weight (?mws ! 1)) / real (sum_list (map weight ?mws))) * (1 - 1 / 2 ^ 53)"
    unfolding S N W using i1 i2 by simp
  have hit: "int (weightBefore ?mws 1) \<le> drawIndex ?r (length (buildWeightedList ?mws))
       \<and> drawIndex ?r (length (buildWeightedList ?mws)) < int (weightBefore ?mws 1 + weight (?mws ! 1))"
    using T inner by blast
  then have idx: "drawIndex ?r 11 = 10" unfolding S W len by simp
  have "pickedMeal (selectFromWeights ?mws ?r) = Some (wm_meal (?mws ! 1))"
    using T inner d by blast
  then have picked: "pickedMeal (selectFromWeights ?mws ?r) = Some (js ''Pizza'')"
    unfolding M .
  from h1 h2 h3 h4 h5 h6 h7 d i1 i2 pool idx picked show ?thesis by (intro conjI)
qed

text \<open>
  C4 as stated takes the index to be the floor of the exact product, so that a meal is
  selected exactly by the numbers of an interval of length weight over total.  The Number
  \<open>0.9090909090909091\<close> lies below \<open>10/11\<close>, in the share of Tacos, and the exact product
  with 11 has floor 9; but its binary64 product with 11 is 10, and Pizza is selected.
\<close>

theorem weighted_pool_distribution_counterexample:
  "isNumber (8188362958855447 / 9007199254740992)
   \<and> (0::real) \<le> 8188362958855447 / 9007199254740992
   \<and> (8188362958855447 / 9007199254740992 :: real) < 10 / 11
   \<and> \<lfloor>(8188362958855447 / 9007199254740992 :: real) * real (length (buildWeightedList
        [\<lparr>wm_meal = js ''Tacos'', weight = 10\<rparr>, \<lparr>wm_meal = js ''Pizza'', weight = 1\<rparr>]))\<rfloor> = 9
   \<and> drawIndex (8188362958855447 / 9007199254740992) (length (buildWeightedList
        [\<lparr>wm_meal = js ''Tacos'', weight = 10\<rparr>, \<lparr>wm_meal = js ''Pizza'', weight = 1\<rparr>])) = 10
   \<and> pickedMeal (selectFromWeights
        [\<lparr>wm_meal = js ''Tacos'', weight = 10\<rparr>, \<lparr>wm_meal = js ''Pizza'', weight = 1\<rparr>]
        (8188362958855447 / 9007199254740992)) = Some (js ''Pizza'')"
proof -
  let ?mws = "[\<lparr>wm_meal = js ''Tacos'', weight = 10\<rparr>, \<lparr>wm_meal = js ''Pizza'', weight = 1\<rparr>]"
  let ?r = "8188362958855447 / 9007199254740992 :: real"
  have pool: "buildWeightedList ?mws = replicate 10 (js ''Tacos'') @ [js ''Pizza'']"
    by (simp add: buildWeightedList_concat)
  have len: "length (buildWeightedList ?mws) = 11" unfolding pool by simp
  have n: "isNumber ?r" by (rule isNumber_10_11)
  have r0: "0 \<le> ?r" by simp
  have r1: "?r < 10 / 11" by simp
  have fl: "\<lfloor>?r * real (length (buildWeightedList ?mws))\<rfloor> = 9" unfolding len by simp
  have idx: "drawIndex ?r (length (buildWeightedList ?mws)) = 10"
    unfolding len by (rule drawIndex_10_11)
  have "pickedMeal (selectFromWeights ?mws ?r)
          = Some (buildWeightedList ?mws ! nat (drawIndex ?r (length (buildWeightedList ?mws))))"
    using n by (intro pickedMeal_selectFromWeights) simp_all
  then have "pickedMeal (selectFromWeights ?mws ?r) = Some (buildWeightedList ?mws ! nat 10)"
    unfolding idx .
  then have picked: "pickedMeal (selectFromWeights ?mws ?r) = Some (js ''Pizza'')"
    unfolding pool by (simp add: nth_append)
  from n r0 r1 fl idx picked show ?thesis by (intro conjI)
qed

section \<open>The debug note and the scenario\<close>

lemma reducedChanceNote_nonempty: "reducedChanceNote m \<noteq> []"
  by (simp add: reducedChanceNote_def js_def)

lemma selectFromWeights_note:
  assumes "mws \<noteq> []" and "list_all (\<lambda>wm. 0 < weight wm \<and> weight wm = weightOf (wm_meal wm)) mws"
    and "isNumber r" and "0 \<le> r" and "r < 1"
  shows "\<exists>m. m \<in> wm_meal ` set mws
     \<and> selectFromWeights mws r = Inr (m, if weightOf m = 1 then reducedChanceNote m else [])"
proof -
  have "list_all (\<lambda>wm. 0 < weight wm) mws"
    using assms(2) unfolding list_all_iff by blast
  with assms(1) have "0 < sum_list (map weight mws)" by (rule total_weight_pos)
  from selectFromWeights_result [OF this assms(3,4,5)] obtain wi where
    wi: "wi \<in> set mws"
      "selectFromWeights mws r =
         Inr (wm_meal wi, if weight wi = 1 then reducedChanceNote (wm_meal wi) else [])"
    by blast
  from wi(1) assms(2) have "weight wi = weightOf (wm_meal wi)" by (simp add: list_all_iff)
  with wi show ?thesis by (intro exI [of _ "wm_meal wi"]) simp
qed

text \<open>
  C5. For a non-empty list of weighted meals whose positive weights are given by the meal
  names (\<open>weightOf\<close>), and a random Number in \<open>[0, 1)\<close>: a meal of the list is returned, and
  the reduced-chance note is left in \<open>pickerMessage\<close> exactly when the weight of that meal
  is 1; otherwise the message stays empty.
\<close>

theorem penalized_iff_weight_one:
  assumes "mws \<noteq> []" and "list_all (\<lambda>wm. 0 < weight wm \<and> weight wm = weightOf (wm_meal wm)) mws"
    and "isNumber r" and "0 \<le> r" and "r < 1"
  shows "\<exists>m note. selectFromWeights mws r = Inr (m, note) \<and> m \<in> wm_meal ` set mws
     \<and> note = (if weightOf m = 1 then reducedChanceNote m else [])
     \<and> (note \<noteq> [] \<longleftrightarrow> weightOf m = 1)"
proof -
  from selectFromWeights_note [OF assms] obtain m where
    m: "m \<in> wm_meal ` set mws"
      "selectFromWeights mws r = Inr (m, if weightOf m = 1 then reducedChanceNote m else [])"
    by blast
  then show ?thesis using reducedChanceNote_nonempty [of m] by auto
qed

lemma mealWeight_pos: "0 < mealWeight history now m"
  by (simp add: mealWeight_def)

lemma computeWeights_consistent:
  "list_all (\<lambda>wm. 0 < weight wm \<and> weight wm = mealWeight history now (wm_meal wm))
     (computeWeights meals history now)"
  by (simp add: computeWeights_def list_all_iff mealWeight_pos)

text \<open>
  The same for \<open>pickWeightedMeal\<close> itself, whose weights are those of \<open>mealWeight\<close>: on a
  non-empty meal list it returns a meal of the list and only sets the message.
\<close>

lemma pickWeightedMeal_result:
  assumes "loadMeals st \<noteq> []" and "isNumber r" and "0 \<le> r" and "r < 1"
  shows "\<exists>m. m \<in> set (loadMeals st)
     \<and> pickWeightedMeal now r st =
         (Inr m, st\<lparr>pickerMessage :=
                      if mealWeight (loadHistory st) now m = 1 then reducedChanceNote m else []\<rparr>)"
proof -
  let ?mws = "computeWeights (loadMeals st) (loadHistory st) now"
  have ne: "?mws \<noteq> []" using assms(1) by (simp add: computeWeights_def)
  from selectFromWeights_note [OF ne computeWeights_consistent assms(2,3,4)] obtain m where
    m: "m \<in> wm_meal ` set ?mws"
      "selectFromWeights ?mws r =
         Inr (m, if mealWeight (loadHistory st) now m = 1 then reducedChanceNote m else [])"
    by blast
  from m(1) have "m \<in> set (loadMeals st)" by (auto simp add: computeWeights_def)
  moreover have "pickWeightedMeal now r st =
         (Inr m, st\<lparr>pickerMessage :=
                      if mealWeight (loadHistory st) now m = 1 then reducedChanceNote m else []\<rparr>)"
    using assms(1) by (simp add: pickWeightedMeal_def Let_def m(2))
  ultimately show ?thesis by blast
qed

theorem penalized_iff_weight_one_witness:
  "[\<lparr>wm_meal = js ''Tacos'', weight = 10\<rparr>, \<lparr>wm_meal = js ''Pizza'', weight = 1\<rparr>] \<noteq> []
   \<and> list_all (\<lambda>wm. 0 < weight wm \<and> weight wm = (if wm_meal wm = js ''Pizza'' then 1 else 10))
        [\<lparr>wm_meal = js ''Tacos'', weight = 10\<rparr>, \<lparr>wm_meal = js ''Pizza'', weight = 1\<rparr>]
   \<and> isNumber (4278419646001971 / 4503599627370496)
   \<and> (0::real) \<le> 4278419646001971 / 4503599627370496
   \<and> (4278419646001971 / 4503599627370496 :: real) < 1
   \<and> isNumber (1 / 2) \<and> (0::real) \<le> 1 / 2 \<and> (1 / 2 :: real) < 1
   \<and> selectFromWeights
        [\<lparr>wm_meal = js ''Tacos'', weight = 10\<rparr>, \<lparr>wm_meal = js ''Pizza'', weight = 1\<rparr>]
        (4278419646001971 / 4503599627370496)
      = Inr (js ''Pizza'', reducedChanceNote (js ''Pizza''))
   \<and> selectFromWeights
        [\<lparr>wm_meal = js ''Tacos'', weight = 10\<rparr>, \<lparr>wm_meal = js ''Pizza'', weight = 1\<rparr>] (1 / 2)
      = Inr (js ''Tacos'', [])"
proof -
  let ?mws = "[\<lparr>wm_meal = js ''Tacos'', weight = 10\<rparr>, \<lparr>wm_meal = js ''Pizza'', weight = 1\<rparr>]"
  let ?wo = "\<lambda>m. if m = js ''Pizza'' then 1 else (10::nat)"
  let ?r = "4278419646001971 / 4503599627370496 :: real"
  have h1: "?mws \<noteq> []" by simp
  have h2: "list_all (\<lambda>wm. 0 < weight wm \<and> weight wm = ?wo (wm_meal wm)) ?mws"
    by (simp add: js_def)
  have n: "isNumber ?r" "isNumber (1 / 2)" by (rule isNumber_95, rule isNumber_half)
  have h3: "0 \<le> ?r" "(0::real) \<le> 1 / 2" by simp_all
  have h4: "?r < 1" "(1 / 2 :: real) < 1" by simp_all
  have pool: "buildWeightedList ?mws = replicate 10 (js ''Tacos'') @ [js ''Pizza'']"
    by (simp add: buildWeightedList_concat)
  have len: "length (buildWeightedList ?mws) = 11" unfolding pool by simp
  have i1: "drawIndex ?r 11 = int 10" by (rule drawIndex_eqI) simp_all
  have i2: "drawIndex (1 / 2) 11 = int 5" by (rule drawIndex_eqI) simp_all
  have "pickedMeal (selectFromWeights ?mws ?r)
          = Some (buildWeightedList ?mws ! nat (drawIndex ?r (length (buildWeightedList ?mws))))"
    using n(1) by (intro pickedMeal_selectFromWeights) simp_all
  then have "pickedMeal (selectFromWeights ?mws ?r) = Some (buildWeightedList ?mws ! nat (int 10))"
    unfolding len i1 .
  then have p1: "pickedMeal (selectFromWeights ?mws ?r) = Some (js ''Pizza'')"
    unfolding pool by (simp add: nth_append)
  have "pickedMeal (selectFromWeights ?mws (1 / 2))
          = Some (buildWeightedList ?mws ! nat (drawIndex (1 / 2) (length (buildWeightedList ?mws))))"
    using n(2) by (intro pickedMeal_selectFromWeights) simp_all
  then have "pickedMeal (selectFromWeights ?mws (1 / 2)) = Some (buildWeightedList ?mws ! nat (int 5))"
    unfolding len i2 .
  then have p2: "pickedMeal (selectFromWeights ?mws (1 / 2)) = Some (js ''Tacos'')"
    unfolding pool by (simp add: nth_append)
  from penalized_iff_weight_one [OF h1 h2 n(1) h3(1) h4(1)] p1
  have r1: "selectFromWeights ?mws ?r = Inr (js ''Pizza'', reducedChanceNote (js ''Pizza''))"
    by (auto simp add: pickedMeal_def)
  from penalized_iff_weight_one [OF h1 h2 n(2) h3(2) h4(2)] p2
  have r2: "selectFromWeights ?mws (1 / 2) = Inr (js ''Tacos'', [])"
    by (auto simp add: pickedMeal_def js_def)
  from h1 h2 n h3 h4 r1 r2 show ?thesis by (intro conjI)
qed

lemma scenario_weights:
  assumes "RECENT_DAYS_MS \<le> now"
  shows "computeWeights [js ''Tacos'', js ''Pizza'']
           [\<lparr>meal = js ''Pizza'', date = now - 2 * 24 * 60 * 60 * 1000\<rparr>] now
         = [\<lparr>wm_meal = js ''Tacos'', weight = 10\<rparr>, \<lparr>wm_meal = js ''Pizza'', weight = 1\<rparr>]"
  using assms
  by (simp add: computeWeights_def mealWeight_def lastEaten_def RECENT_DAYS_MS_def js_def max_def)

lemma scenario_pool:
  "buildWeightedList [\<lparr>wm_meal = js ''Tacos'', weight = 10\<rparr>, \<lparr>wm_meal = js ''Pizza'', weight = 1\<rparr>]
     = replicate 10 (js ''Tacos'') @ [js ''Pizza'']"
  by (simp add: buildWeightedList_concat)

lemma scenario_index:
  assumes "10 \<le> r * 11" and "r * 11 \<le> 11 * (1 - 1 / 2 ^ 53)"
  shows "drawIndex r 11 = 10"
proof -
  have "drawIndex r 11 = int 10"
  proof (rule drawIndex_eqI)
    show "real 10 \<le> r * real 11" using assms(1) by simp
    show "r * real 11 \<le> real (Suc 10) * (1 - 1 / 2 ^ 53)" using assms(2) by simp
  qed simp
  then show ?thesis by simp
qed

lemma scenario_select:
  assumes "10 \<le> r * 11" and "r * 11 \<le> 11 * (1 - 1 / 2 ^ 53)"
  shows "selectFromWeights [\<lparr>wm_meal = js ''Tacos'', weight = 10\<rparr>, \<lparr>wm_meal = js ''Pizza'', weight = 1\<rparr>] r
     = Inr (js ''Pizza'', reducedChanceNote (js ''Pizza''))"
proof -
  have "arrayGet (replicate 10 (js ''Tacos'') @ [js ''Pizza'']) (drawIndex r 11)
          = Some (js ''Pizza'')"
    unfolding scenario_index [OF assms] by (simp add: arrayGet_def nth_append)
  moreover have "length (replicate 10 (js ''Tacos'') @ [js ''Pizza'']) = 11" by simp
  ultimately show ?thesis
    unfolding selectFromWeights_def scenario_pool Let_def by (simp add: js_def)
qed

lemma scenario_select_95:
  "selectFromWeights [\<lparr>wm_meal = js ''Tacos'', weight = 10\<rparr>, \<lparr>wm_meal = js ''Pizza'', weight = 1\<rparr>]
     (95 / 100) = Inr (js ''Pizza'', reducedChanceNote (js ''Pizza''))"
  by (rule scenario_select) simp_all

lemma scenario_select_Number:
  "selectFromWeights [\<lparr>wm_meal = js ''Tacos'', weight = 10\<rparr>, \<lparr>wm_meal = js ''Pizza'', weight = 1\<rparr>]
     (round64 (95 / 100)) = Inr (js ''Pizza'', reducedChanceNote (js ''Pizza''))"
  unfolding round64_95 by (rule scenario_select) simp_all

text \<open>
  C1 (as amended).  Meals Tacos and Pizza, one history entry for Pizza two days before
  \<open>now\<close>, and \<open>now\<close> at least 30 days past the epoch: the weights are Tacos 10 and Pizza 1,
  the pool holds ten times Tacos and then Pizza, and the random number 0.95 gives index
  \<open>\<lfloor>0.95 * 11\<rfloor> = 10\<close>, the last position: Pizza is selected, with the reduced-chance note.
  This holds for the exact \<open>95/100\<close> and for the Number that JavaScript writes \<open>0.95\<close>,
  which is \<open>round64 (95/100)\<close>.
\<close>

theorem scenario_tacos_pizza:
  assumes "RECENT_DAYS_MS \<le> now"
  shows "computeWeights [js ''Tacos'', js ''Pizza'']
           [\<lparr>meal = js ''Pizza'', date = now - 2 * 24 * 60 * 60 * 1000\<rparr>] now
         = [\<lparr>wm_meal = js ''Tacos'', weight = 10\<rparr>, \<lparr>wm_meal = js ''Pizza'', weight = 1\<rparr>]
     \<and> buildWeightedList (computeWeights [js ''Tacos'', js ''Pizza'']
           [\<lparr>meal = js ''Pizza'', date = now - 2 * 24 * 60 * 60 * 1000\<rparr>] now)
         = replicate 10 (js ''Tacos'') @ [js ''Pizza'']
     \<and> length (buildWeightedList (computeWeights [js ''Tacos'', js ''Pizza'']
           [\<lparr>meal = js ''Pizza'', date = now - 2 * 24 * 60 * 60 * 1000\<rparr>] now)) = 11
     \<and> drawIndex (95 / 100) 11 = 10
     \<and> selectFromWeights (computeWeights [js ''Tacos'', js ''Pizza'']
           [\<lparr>meal = js ''Pizza'', date = now - 2 * 24 * 60 * 60 * 1000\<rparr>] now) (95 / 100)
         = Inr (js ''Pizza'', reducedChanceNote (js ''Pizza''))
     \<and> fst (pickWeightedMeal now (95 / 100)
           (st\<lparr>mealStore := Some [js ''Tacos'', js ''Pizza''],
               historyStore := Some [\<lparr>meal = js ''Pizza'', date = now - 2 * 24 * 60 * 60 * 1000\<rparr>]\<rparr>))
         = Inr (js ''Pizza'')
     \<and> round64 (95 / 100) = 4278419646001971 / 4503599627370496
     \<and> isNumber (round64 (95 / 100))
     \<and> drawIndex (round64 (95 / 100)) 11 = 10
     \<and> selectFromWeights (computeWeights [js ''Tacos'', js ''Pizza'']
           [\<lparr>meal = js ''Pizza'', date = now - 2 * 24 * 60 * 60 * 1000\<rparr>] now) (round64 (95 / 100))
         = Inr (js ''Pizza'', reducedChanceNote (js ''Pizza''))
     \<and> fst (pickWeightedMeal now (round64 (95 / 100))
           (st\<lparr>mealStore := Some [js ''Tacos'', js ''Pizza''],
               historyStore := Some [\<lparr>meal = js ''Pizza'', date = now - 2 * 24 * 60 * 60 * 1000\<rparr>]\<rparr>))
         = Inr (js ''Pizza'')"
proof -
  note w = scenario_weights [OF assms]
  have idx: "drawIndex (95 / 100) 11 = 10" by (rule scenario_index) simp_all
  have idxN: "drawIndex (round64 (95 / 100)) 11 = 10"
    unfolding round64_95 by (rule scenario_index) simp_all
  have num: "isNumber (round64 (95 / 100))" unfolding round64_95 by (rule isNumber_95)
  have selN: "selectFromWeights (computeWeights [js ''Tacos'', js ''Pizza'']
           [\<lparr>meal = js ''Pizza'', date = now - 2 * 24 * 60 * 60 * 1000\<rparr>] now) (round64 (95 / 100))
         = Inr (js ''Pizza'', reducedChanceNote (js ''Pizza''))"
    unfolding w by (rule scenario_select_Number)
  have sel: "selectFromWeights (computeWeights [js ''Tacos'', js ''Pizza'']
           [\<lparr>meal = js ''Pizza'', date = now - 2 * 24 * 60 * 60 * 1000\<rparr>] now) (95 / 100)
         = Inr (js ''Pizza'', reducedChanceNote (js ''Pizza''))"
    unfolding w by (rule scenario_select_95)
  let ?st = "st\<lparr>mealStore := Some [js ''Tacos'', js ''Pizza''],
               historyStore := Some [\<lparr>meal = js ''Pizza'', date = now - 2 * 24 * 60 * 60 * 1000\<rparr>]\<rparr>"
  have lm: "loadMeals ?st = [js ''Tacos'', js ''Pizza'']"
    by (simp add: loadMeals_def)
  have lh: "loadHistory ?st = [\<lparr>meal = js ''Pizza'', date = now - 2 * 24 * 60 * 60 * 1000\<rparr>]"
    by (simp add: loadHistory_def)
  have pick: "fst (pickWeightedMeal now (95 / 100) ?st) = Inr (js ''Pizza'')"
    unfolding pickWeightedMeal_def Let_def lm lh sel by simp
  have pickN: "fst (pickWeightedMeal now (round64 (95 / 100)) ?st) = Inr (js ''Pizza'')"
    unfolding pickWeightedMeal_def Let_def lm lh selN by simp
  have pool: "buildWeightedList (computeWeights [js ''Tacos'', js ''Pizza'']
           [\<lparr>meal = js ''Pizza'', date = now - 2 * 24 * 60 * 60 * 1000\<rparr>] now)
         = replicate 10 (js ''Tacos'') @ [js ''Pizza'']"
    unfolding w by (rule scenario_pool)
  have len: "length (buildWeightedList (computeWeights [js ''Tacos'', js ''Pizza'']
           [\<lparr>meal = js ''Pizza'', date = now - 2 * 24 * 60 * 60 * 1000\<rparr>] now)) = 11"
    unfolding pool by simp
  from w pool len idx sel pick round64_95 num idxN selN pickN show ?thesis
    by (intro conjI)
qed

theorem scenario_tacos_pizza_witness:
  "RECENT_DAYS_MS \<le> 1700000000000
   \<and> computeWeights [js ''Tacos'', js ''Pizza'']
        [\<lparr>meal = js ''Pizza'', date = 1699827200000\<rparr>] 1700000000000
      = [\<lparr>wm_meal = js ''Tacos'', weight = 10\<rparr>, \<lparr>wm_meal = js ''Pizza'', weight = 1\<rparr>]
   \<and> selectFromWeights (computeWeights [js ''Tacos'', js ''Pizza'']
        [\<lparr>meal = js ''Pizza'', date = 1699827200000\<rparr>] 1700000000000) (95 / 100)
      = Inr (js ''Pizza'', reducedChanceNote (js ''Pizza''))
   \<and> fst (pickWeightedMeal 1700000000000 (95 / 100)
        (pageLoaded\<lparr>mealStore := Some [js ''Tacos'', js ''Pizza''],
            historyStore := Some [\<lparr>meal = js ''Pizza'', date = 1699827200000\<rparr>]\<rparr>))
      = Inr (js ''Pizza'')
   \<and> fst (pickWeightedMeal 1700000000000 (round64 (95 / 100))
        (pageLoaded\<lparr>mealStore := Some [js ''Tacos'', js ''Pizza''],
            historyStore := Some [\<lparr>meal = js ''Pizza'', date = 1699827200000\<rparr>]\<rparr>))
      = Inr (js ''Pizza'')"
proof -
  have h: "RECENT_DAYS_MS \<le> 1700000000000" by (simp add: RECENT_DAYS_MS_def)
  have d: "(1700000000000::int) - 2 * 24 * 60 * 60 * 1000 = 1699827200000" by simp
  note T = scenario_tacos_pizza [OF h, of pageLoaded, unfolded d]
  show ?thesis
    using h T [THEN conjunct1]
      T [THEN conjunct2, THEN conjunct2, THEN conjunct2, THEN conjunct2, THEN conjunct1]
      T [THEN conjunct2, THEN conjunct2, THEN conjunct2, THEN conjunct2, THEN conjunct2,
         THEN conjunct1]
      T [THEN conjunct2, THEN conjunct2, THEN conjunct2, THEN conjunct2, THEN conjunct2,
         THEN conjunct2, THEN conjunct2, THEN conjunct2, THEN conjunct2, THEN conjunct2]
    by (intro conjI)
qed

text \<open>
  C1 as stated says that Tacos is selected.  At \<open>now = 1700000000000\<close> the selection is
  Pizza, for the exact \<open>95/100\<close> and for the Number \<open>0.95\<close>.  And with the clock two days
  past the epoch (the Pizza entry at 0), both weights are 1.
\<close>

theorem scenario_selects_tacos_counterexample:
  "pickedMeal (selectFromWeights (computeWeights [js ''Tacos'', js ''Pizza'']
      [\<lparr>meal = js ''Pizza'', date = 1699827200000\<rparr>] 1700000000000) (95 / 100))
     = Some (js ''Pizza'')
   \<and> pickedMeal (selectFromWeights (computeWeights [js ''Tacos'', js ''Pizza'']
      [\<lparr>meal = js ''Pizza'', date = 1699827200000\<rparr>] 1700000000000) (95 / 100))
     \<noteq> Some (js ''Tacos'')
   \<and> computeWeights [js ''Tacos'', js ''Pizza''] [\<lparr>meal = js ''Pizza'', date = 0\<rparr>] 172800000
     = [\<lparr>wm_meal = js ''Tacos'', weight = 1\<rparr>, \<lparr>wm_meal = js ''Pizza'', weight = 1\<rparr>]
   \<and> pickedMeal (selectFromWeights (computeWeights [js ''Tacos'', js ''Pizza'']
      [\<lparr>meal = js ''Pizza'', date = 1699827200000\<rparr>] 1700000000000) (round64 (95 / 100)))
     = Some (js ''Pizza'')"
proof -
  have w: "computeWeights [js ''Tacos'', js ''Pizza'']
      [\<lparr>meal = js ''Pizza'', date = 1699827200000\<rparr>] 1700000000000
     = [\<lparr>wm_meal = js ''Tacos'', weight = 10\<rparr>, \<lparr>wm_meal = js ''Pizza'', weight = 1\<rparr>]"
    by (simp add: computeWeights_def mealWeight_def lastEaten_def RECENT_DAYS_MS_def js_def)
  then have "selectFromWeights (computeWeights [js ''Tacos'', js ''Pizza'']
      [\<lparr>meal = js ''Pizza'', date = 1699827200000\<rparr>] 1700000000000) (95 / 100)
     = Inr (js ''Pizza'', reducedChanceNote (js ''Pizza''))"
    by (simp only: scenario_select_95)
  then have sel: "pickedMeal (selectFromWeights (computeWeights [js ''Tacos'', js ''Pizza'']
      [\<lparr>meal = js ''Pizza'', date = 1699827200000\<rparr>] 1700000000000) (95 / 100))
     = Some (js ''Pizza'')"
    unfolding pickedMeal_def by simp
  have ne: "Some (js ''Pizza'') \<noteq> Some (js ''Tacos'')" by (simp add: js_def)
  have early: "computeWeights [js ''Tacos'', js ''Pizza''] [\<lparr>meal = js ''Pizza'', date = 0\<rparr>] 172800000
     = [\<lparr>wm_meal = js ''Tacos'', weight = 1\<rparr>, \<lparr>wm_meal = js ''Pizza'', weight = 1\<rparr>]"
    by (simp add: computeWeights_def mealWeight_def lastEaten_def RECENT_DAYS_MS_def)
  have "selectFromWeights (computeWeights [js ''Tacos'', js ''Pizza'']
      [\<lparr>meal = js ''Pizza'', date = 1699827200000\<rparr>] 1700000000000) (round64 (95 / 100))
     = Inr (js ''Pizza'', reducedChanceNote (js ''Pizza''))"
    unfolding w by (rule scenario_select_Number)
  then have selN: "pickedMeal (selectFromWeights (computeWeights [js ''Tacos'', js ''Pizza'']
      [\<lparr>meal = js ''Pizza'', date = 1699827200000\<rparr>] 1700000000000) (round64 (95 / 100)))
     = Some (js ''Pizza'')"
    unfolding pickedMeal_def by simp
  show ?thesis unfolding sel using ne early selN by (intro conjI refl)
qed

section \<open>The empty meal list and repeated picks\<close>

text \<open>
  C3. With an empty stored meal list, \<open>pickWeightedMeal\<close> returns no meal, whatever the
  history, the clock and the random number: it returns \<open>null\<close> and asks for meals.
\<close>

theorem pickWeightedMeal_empty:
  "pickWeightedMeal now r (st\<lparr>mealStore := Some []\<rparr>) =
     (Inl EmptyInputError,
      st\<lparr>mealStore := Some [], pickerMessage := js ''Please add some meals first!''\<rparr>)"
  by (simp add: pickWeightedMeal_def loadMeals_def)

lemma pickWeightedMeal_frame:
  "mealStore (snd (pickWeightedMeal now r st)) = mealStore st
   \<and> historyStore (snd (pickWeightedMeal now r st)) = historyStore st"
  by (simp add: pickWeightedMeal_def Let_def split: sum.split prod.split)

lemma fst_pickWeightedMeal:
  "fst (pickWeightedMeal now r st) =
     (if loadMeals st = [] then Inl EmptyInputError
      else map_sum id fst (selectFromWeights (computeWeights (loadMeals st) (loadHistory st) now) r))"
  by (simp add: pickWeightedMeal_def Let_def split: sum.split prod.split)

text \<open>
  C9. The weights are a function of the meal list, the history and the clock alone, and a
  pick changes neither stored list: computed again after \<open>pickWeightedMeal\<close> has run, the
  weights are the same sequence as before, and a pick with the same clock and random number
  returns the same result.
\<close>

theorem computeWeights_repeatable:
  "computeWeights (loadMeals (snd (pickWeightedMeal now r st)))
       (loadHistory (snd (pickWeightedMeal now r st))) now'
     = computeWeights (loadMeals st) (loadHistory st) now'
   \<and> fst (pickWeightedMeal now' r' (snd (pickWeightedMeal now r st)))
     = fst (pickWeightedMeal now' r' st)"
proof -
  let ?st' = "snd (pickWeightedMeal now r st)"
  have lm: "loadMeals ?st' = loadMeals st"
    using pickWeightedMeal_frame [of now r st] by (simp add: loadMeals_def)
  have lh: "loadHistory ?st' = loadHistory st"
    using pickWeightedMeal_frame [of now r st] by (simp add: loadHistory_def)
  have "fst (pickWeightedMeal now' r' ?st') = fst (pickWeightedMeal now' r' st)"
    by (simp only: fst_pickWeightedMeal lm lh)
  then show ?thesis by (simp add: lm lh)
qed

section \<open>The recent history\<close>

lemma mset_sort_insert: "mset (sort_insert cmp x ys) = add_mset x (mset ys)"
  by (induction ys) simp_all

lemma mset_array_sort: "mset (array_sort cmp xs) = mset xs"
  by (induction xs) (simp_all add: array_sort_def mset_sort_insert)

lemma set_sort_insert: "set (sort_insert cmp x ys) = insert x (set ys)"
  by (induction ys) auto

lemma sorted_sort_insert:
  assumes "sorted_wrt (\<lambda>a b. date b \<le> date a) ys"
  shows "sorted_wrt (\<lambda>a b. date b \<le> date a) (sort_insert (\<lambda>a b. date b - date a) x ys)"
  using assms
proof (induction ys)
  case Nil
  then show ?case by simp
next
  case (Cons y ys)
  show ?case
  proof (cases "date y - date x \<le> 0")
    case True
    with Cons.prems show ?thesis by auto
  next
    case False
    with Cons show ?thesis by (auto simp add: set_sort_insert)
  qed
qed

lemma sorted_array_sort:
  "sorted_wrt (\<lambda>a b. date b \<le> date a) (array_sort (\<lambda>a b. date b - date a) xs)"
  by (induction xs) (simp_all add: array_sort_def sorted_sort_insert)

lemma filter_sort_insert:
  "filter (\<lambda>e. date e = t) (sort_insert (\<lambda>a b. date b - date a) x ys)
     = (if date x = t then x # filter (\<lambda>e. date e = t) ys else filter (\<lambda>e. date e = t) ys)"
  by (induction ys) auto

lemma stable_array_sort:
  "filter (\<lambda>e. date e = t) (array_sort (\<lambda>a b. date b - date a) xs) = filter (\<lambda>e. date e = t) xs"
  by (induction xs) (simp_all add: array_sort_def filter_sort_insert)

lemma array_sort_sort_key:
  "array_sort (\<lambda>a b. date b - date a) xs = sort_key (\<lambda>e. - date e) xs"
proof (rule properties_for_sort_key [symmetric])
  show "mset (array_sort (\<lambda>a b. date b - date a) xs) = mset xs" by (rule mset_array_sort)
next
  fix k
  have "filter (\<lambda>x. - date k = - date x) (array_sort (\<lambda>a b. date b - date a) xs)
      = filter (\<lambda>e. date e = date k) (array_sort (\<lambda>a b. date b - date a) xs)"
    by (rule filter_cong) auto
  also have "\<dots> = filter (\<lambda>e. date e = date k) xs" by (rule stable_array_sort)
  also have "\<dots> = filter (\<lambda>x. - date k = - date x) xs"
    by (rule filter_cong) auto
  finally show "filter (\<lambda>x. - date k = - date x) (array_sort (\<lambda>a b. date b - date a) xs)
      = filter (\<lambda>x. - date k = - date x) xs" .
next
  have "sorted_wrt (\<lambda>a b. date b \<le> date a) (array_sort (\<lambda>a b. date b - date a) xs)"
    by (rule sorted_array_sort)
  then show "sorted (map (\<lambda>e. - date e) (array_sort (\<lambda>a b. date b - date a) xs))"
    by (simp add: sorted_map)
qed

text \<open>
  C6. \<open>recentHistory\<close> is the first 10 entries of a list \<open>s\<close> that holds exactly the entries
  with \<open>date > now - 30 days\<close> (as a multiset), is in descending order of date, and keeps
  entries of equal date in their input order; \<open>s\<close> is the stable sort of the filtered
  entries by descending date.  The result never has more than 10 entries.
\<close>

theorem recentHistory_filter_sort_truncate:
  "\<exists>s. recentHistory history now = take 10 s
     \<and> mset s = mset (filter (\<lambda>e. now - RECENT_DAYS_MS < date e) history)
     \<and> sorted_wrt (\<lambda>a b. date b \<le> date a) s
     \<and> (\<forall>t. filter (\<lambda>e. date e = t) s
              = filter (\<lambda>e. date e = t) (filter (\<lambda>e. now - RECENT_DAYS_MS < date e) history))
     \<and> s = sort_key (\<lambda>e. - date e) (filter (\<lambda>e. now - RECENT_DAYS_MS < date e) history)
     \<and> length (recentHistory history now) \<le> 10"
proof -
  let ?fs = "filter (\<lambda>e. now - RECENT_DAYS_MS < date e) history"
  let ?s = "array_sort (\<lambda>a b. date b - date a) ?fs"
  have "recentHistory history now = take 10 ?s"
    by (simp add: recentHistory_def RECENT_DAYS_MS_def)
  moreover have "mset ?s = mset ?fs" by (rule mset_array_sort)
  moreover have "sorted_wrt (\<lambda>a b. date b \<le> date a) ?s" by (rule sorted_array_sort)
  moreover have "\<forall>t. filter (\<lambda>e. date e = t) ?s = filter (\<lambda>e. date e = t) ?fs"
    by (simp add: stable_array_sort)
  moreover have "?s = sort_key (\<lambda>e. - date e) ?fs" by (rule array_sort_sort_key)
  moreover have "length (recentHistory history now) \<le> 10"
    by (simp add: recentHistory_def)
  ultimately show ?thesis by blast
qed

text \<open>Entries 1, 40, 5 and 31 days old: those of 1 and 5 days remain, in this order.\<close>

lemma recentHistory_example:
  "recentHistory
     [\<lparr>meal = js ''A'', date = now - 1 * 24 * 60 * 60 * 1000\<rparr>,
      \<lparr>meal = js ''B'', date = now - 40 * 24 * 60 * 60 * 1000\<rparr>,
      \<lparr>meal = js ''C'', date = now - 5 * 24 * 60 * 60 * 1000\<rparr>,
      \<lparr>meal = js ''D'', date = now - 31 * 24 * 60 * 60 * 1000\<rparr>] now
   = [\<lparr>meal = js ''A'', date = now - 1 * 24 * 60 * 60 * 1000\<rparr>,
      \<lparr>meal = js ''C'', date = now - 5 * 24 * 60 * 60 * 1000\<rparr>]"
  by (simp add: recentHistory_def array_sort_def)

section \<open>Confirming a pick\<close>

text \<open>Without a picked meal, \<open>confirmMeal\<close> returns at once.\<close>

lemma confirmMeal_no_pick:
  "currentPickedMeal st = None \<or> currentPickedMeal st = Some [] \<Longrightarrow> confirmMeal now renderNow st = st"
  by (auto simp add: confirmMeal_def)

text \<open>
  C8. With a meal picked, \<open>confirmMeal\<close> stores the old history followed by one new entry,
  the picked meal at the current time: the history is one longer, its old entries are
  unchanged and in place, and the stored meal list is untouched.
\<close>

theorem confirmMeal_appends_entry:
  assumes "currentPickedMeal st = Some picked" and "picked \<noteq> []"
  shows "historyStore (confirmMeal now renderNow st)
           = Some (loadHistory st @ [\<lparr>meal = picked, date = now\<rparr>])
     \<and> loadHistory (confirmMeal now renderNow st) = loadHistory st @ [\<lparr>meal = picked, date = now\<rparr>]
     \<and> length (loadHistory (confirmMeal now renderNow st)) = length (loadHistory st) + 1
     \<and> take (length (loadHistory st)) (loadHistory (confirmMeal now renderNow st)) = loadHistory st
     \<and> mealStore (confirmMeal now renderNow st) = mealStore st
     \<and> loadMeals (confirmMeal now renderNow st) = loadMeals st"
  using assms
  by (simp add: confirmMeal_def Let_def saveHistory_def resetPickerUI_def renderHistory_def
      loadHistory_def loadMeals_def)

theorem confirmMeal_appends_entry_witness:
  "currentPickedMeal (pageLoaded\<lparr>historyStore := Some [\<lparr>meal = js ''Pizza'', date = 1699827200000\<rparr>],
       currentPickedMeal := Some (js ''Tacos'')\<rparr>) = Some (js ''Tacos'')
   \<and> js ''Tacos'' \<noteq> []
   \<and> historyStore (confirmMeal 1700000000000 1700000000001
        (pageLoaded\<lparr>historyStore := Some [\<lparr>meal = js ''Pizza'', date = 1699827200000\<rparr>],
           currentPickedMeal := Some (js ''Tacos'')\<rparr>))
      = Some [\<lparr>meal = js ''Pizza'', date = 1699827200000\<rparr>,
              \<lparr>meal = js ''Tacos'', date = 1700000000000\<rparr>]
   \<and> mealStore (confirmMeal 1700000000000 1700000000001
        (pageLoaded\<lparr>historyStore := Some [\<lparr>meal = js ''Pizza'', date = 1699827200000\<rparr>],
           currentPickedMeal := Some (js ''Tacos'')\<rparr>)) = None"
proof -
  let ?st = "pageLoaded\<lparr>historyStore := Some [\<lparr>meal = js ''Pizza'', date = 1699827200000\<rparr>],
       currentPickedMeal := Some (js ''Tacos'')\<rparr>"
  have h1: "currentPickedMeal ?st = Some (js ''Tacos'')" by simp
  have h2: "js ''Tacos'' \<noteq> []" by (simp add: js_def)
  have lh: "loadHistory ?st = [\<lparr>meal = js ''Pizza'', date = 1699827200000\<rparr>]"
    by (simp add: loadHistory_def)
  have ms: "mealStore ?st = None" by (simp add: pageLoaded_def)
  note T = confirmMeal_appends_entry [OF h1 h2, of 1700000000000 1700000000001]
  have a: "historyStore (confirmMeal 1700000000000 1700000000001 ?st)
      = Some [\<lparr>meal = js ''Pizza'', date = 1699827200000\<rparr>,
              \<lparr>meal = js ''Tacos'', date = 1700000000000\<rparr>]"
    using T [THEN conjunct1] unfolding lh by simp
  have b: "mealStore (confirmMeal 1700000000000 1700000000001 ?st) = None"
    using T [THEN conjunct2, THEN conjunct2, THEN conjunct2, THEN conjunct2, THEN conjunct1]
    unfolding ms .
  from h1 h2 a b show ?thesis by (intro conjI)
qed

section \<open>Adding and deleting meals\<close>

lemma distinct_defaultMeals: "distinct defaultMeals"
  by (simp add: defaultMeals_def js_def)

lemma loadMeals_addMeal:
  "loadMeals (addMeal st) =
     (if trim (newMealInput st) \<noteq> [] \<and> trim (newMealInput st) \<notin> set (loadMeals st)
      then loadMeals st @ [trim (newMealInput st)] else loadMeals st)"
  by (simp add: addMeal_def Let_def loadMeals_def saveMeals_def renderMealList_def)

lemma loadMeals_deleteMeal:
  "loadMeals (deleteMeal mealName st) = filter (\<lambda>meal. meal \<noteq> mealName) (loadMeals st)"
  by (simp add: deleteMeal_def Let_def loadMeals_def saveMeals_def renderMealList_def)

lemma loadMeals_confirmMeal: "loadMeals (confirmMeal now renderNow st) = loadMeals st"
  by (simp add: confirmMeal_def Let_def saveHistory_def resetPickerUI_def renderHistory_def
      loadMeals_def split: option.split)

lemma loadMeals_displayPickedMeal: "loadMeals (displayPickedMeal now r st) = loadMeals st"
proof (cases "pickWeightedMeal now r st")
  case (Pair res st1)
  with pickWeightedMeal_frame [of now r st] have "mealStore st1 = mealStore st" by simp
  with Pair show ?thesis
    by (simp add: displayPickedMeal_def loadMeals_def split: sum.split pick_error.split)
qed

text \<open>
  C7. From a duplicate-free meal list, every operation of the script leaves a
  duplicate-free meal list: \<open>addMeal\<close> (which stores nothing when the trimmed name is
  already in the list, compared by string equality), \<open>deleteMeal\<close>, and the pick and
  confirm steps, which do not write the list.
\<close>

theorem meal_list_stays_distinct:
  assumes "distinct (loadMeals st)"
  shows "distinct (loadMeals (addMeal st))
     \<and> distinct (loadMeals (deleteMeal mealName st))
     \<and> distinct (loadMeals (displayPickedMeal now r st))
     \<and> distinct (loadMeals (confirmMeal now renderNow st))
     \<and> (trim (newMealInput st) \<in> set (loadMeals st) \<longrightarrow> mealStore (addMeal st) = mealStore st)"
proof -
  have "distinct (loadMeals (addMeal st))"
    using assms by (simp add: loadMeals_addMeal)
  moreover have "distinct (loadMeals (deleteMeal mealName st))"
    using assms by (simp add: loadMeals_deleteMeal)
  moreover have "distinct (loadMeals (displayPickedMeal now r st))"
    using assms by (simp add: loadMeals_displayPickedMeal)
  moreover have "distinct (loadMeals (confirmMeal now renderNow st))"
    using assms by (simp add: loadMeals_confirmMeal)
  moreover have "trim (newMealInput st) \<in> set (loadMeals st) \<longrightarrow> mealStore (addMeal st) = mealStore st"
    by (simp add: addMeal_def Let_def)
  ultimately show ?thesis by blast
qed

theorem meal_list_stays_distinct_witness:
  "distinct (loadMeals (pageLoaded\<lparr>newMealInput := js '' Soup ''\<rparr>))
   \<and> loadMeals (addMeal (pageLoaded\<lparr>newMealInput := js '' Soup ''\<rparr>)) = defaultMeals @ [js ''Soup'']
   \<and> distinct (defaultMeals @ [js ''Soup''])
   \<and> loadMeals (deleteMeal (js ''Sushi'') (pageLoaded\<lparr>newMealInput := js '' Soup ''\<rparr>))
        = [js ''Tacos'', js ''Spaghetti'', js ''Chicken Stir-Fry'', js ''Steak'']
   \<and> distinct [js ''Tacos'', js ''Spaghetti'', js ''Chicken Stir-Fry'', js ''Steak'']
   \<and> trim (newMealInput (pageLoaded\<lparr>newMealInput := js '' Tacos''\<rparr>))
        \<in> set (loadMeals (pageLoaded\<lparr>newMealInput := js '' Tacos''\<rparr>))
   \<and> mealStore (addMeal (pageLoaded\<lparr>newMealInput := js '' Tacos''\<rparr>)) = None"
proof -
  let ?st = "pageLoaded\<lparr>newMealInput := js '' Soup ''\<rparr>"
  let ?st' = "pageLoaded\<lparr>newMealInput := js '' Tacos''\<rparr>"
  have lm: "loadMeals ?st = defaultMeals" "loadMeals ?st' = defaultMeals"
    by (simp_all add: loadMeals_def pageLoaded_def)
  have h: "distinct (loadMeals ?st)" "distinct (loadMeals ?st')"
    unfolding lm by (rule distinct_defaultMeals)+
  have t: "trim (newMealInput ?st) = js ''Soup''" "trim (newMealInput ?st') = js ''Tacos''"
    by (simp_all add: trim_def js_def isWhiteSpace_def)
  have a: "loadMeals (addMeal ?st) = defaultMeals @ [js ''Soup'']"
    unfolding loadMeals_addMeal t lm by (simp add: defaultMeals_def js_def)
  have d: "loadMeals (deleteMeal (js ''Sushi'') ?st)
        = [js ''Tacos'', js ''Spaghetti'', js ''Chicken Stir-Fry'', js ''Steak'']"
    unfolding loadMeals_deleteMeal lm by (simp add: defaultMeals_def js_def)
  have m: "trim (newMealInput ?st') \<in> set (loadMeals ?st')"
    unfolding t lm by (simp add: defaultMeals_def)
  have n: "mealStore ?st' = None" by (simp add: pageLoaded_def)
  note T = meal_list_stays_distinct [OF h(1), where mealName = "js ''Sushi''"]
  note T' = meal_list_stays_distinct [OF h(2)]
  have "mealStore (addMeal ?st') = mealStore ?st'"
    using T' m by blast
  then have "mealStore (addMeal ?st') = None"
    unfolding n .
  moreover have "distinct (defaultMeals @ [js ''Soup''])"
    using T [THEN conjunct1] unfolding a .
  moreover have "distinct [js ''Tacos'', js ''Spaghetti'', js ''Chicken Stir-Fry'', js ''Steak'']"
    using T [THEN conjunct2, THEN conjunct1] unfolding d .
  ultimately show ?thesis using h(1) a d m by (intro conjI)
qed

lemma last_dropWhile_nonempty:
  "dropWhile P xs \<noteq> [] \<Longrightarrow> last (dropWhile P xs) = last xs"
  by (induction xs) (auto split: if_splits)

lemma trim_Nil_iff: "trim s = [] \<longleftrightarrow> list_all isWhiteSpace s"
proof -
  let ?a = "dropWhile isWhiteSpace s"
  have "trim s = [] \<longleftrightarrow> (\<forall>x\<in>set ?a. isWhiteSpace x)"
    by (simp add: trim_def dropWhile_eq_Nil_conv)
  also have "\<dots> \<longleftrightarrow> ?a = []"
  proof
    assume all: "\<forall>x\<in>set ?a. isWhiteSpace x"
    show "?a = []"
    proof (rule ccontr)
      assume ne: "?a \<noteq> []"
      then have "\<not> isWhiteSpace (hd ?a)" by (rule hd_dropWhile)
      moreover have "hd ?a \<in> set ?a" using ne by simp
      ultimately show False using all by blast
    qed
  next
    assume e: "?a = []"
    show "\<forall>x\<in>set ?a. isWhiteSpace x" unfolding e by simp
  qed
  also have "\<dots> \<longleftrightarrow> list_all isWhiteSpace s"
    by (simp add: dropWhile_eq_Nil_conv list_all_iff)
  finally show ?thesis .
qed

lemma trim_ends:
  assumes "trim s \<noteq> []"
  shows "\<not> isWhiteSpace (hd (trim s))" and "\<not> isWhiteSpace (last (trim s))"
proof -
  let ?a = "dropWhile isWhiteSpace s"
  let ?b = "dropWhile isWhiteSpace (rev ?a)"
  have b: "?b \<noteq> []" using assms by (simp add: trim_def)
  have a: "?a \<noteq> []"
  proof
    assume "?a = []"
    then have "?b = []" by (simp only: rev.simps dropWhile.simps)
    with b show False ..
  qed
  have "hd (trim s) = last ?b" using b by (simp add: trim_def hd_rev)
  also have "\<dots> = last (rev ?a)" using b by (rule last_dropWhile_nonempty)
  also have "\<dots> = hd ?a" using a by (simp add: last_rev)
  finally have "hd (trim s) = hd ?a" .
  moreover have "\<not> isWhiteSpace (hd ?a)" using a by (rule hd_dropWhile)
  ultimately show "\<not> isWhiteSpace (hd (trim s))" by simp
  have "last (trim s) = hd ?b" using b by (simp add: trim_def last_rev)
  moreover have "\<not> isWhiteSpace (hd ?b)" using b by (rule hd_dropWhile)
  ultimately show "\<not> isWhiteSpace (last (trim s))" by simp
qed

lemma trim_decompose:
  "\<exists>pre post. s = pre @ trim s @ post \<and> list_all isWhiteSpace pre \<and> list_all isWhiteSpace post"
proof -
  let ?a = "dropWhile isWhiteSpace s"
  let ?post = "rev (takeWhile isWhiteSpace (rev ?a))"
  have "rev (takeWhile isWhiteSpace (rev ?a) @ dropWhile isWhiteSpace (rev ?a)) = rev (rev ?a)"
    by (simp only: takeWhile_dropWhile_id)
  then have "?a = trim s @ ?post"
    by (simp only: rev_append rev_rev_ident trim_def)
  then have "s = takeWhile isWhiteSpace s @ trim s @ ?post"
    by (metis takeWhile_dropWhile_id)
  moreover have "list_all isWhiteSpace (takeWhile isWhiteSpace s)"
    by (auto simp add: list_all_iff dest: set_takeWhileD)
  moreover have "list_all isWhiteSpace ?post"
    by (auto simp add: list_all_iff dest: set_takeWhileD)
  ultimately show ?thesis by blast
qed

text \<open>
  C10. \<open>addMeal\<close> works on the trimmed input, which is the input without a leading and a
  trailing run of whitespace.  On an input of whitespace only (or empty) it returns the
  state as it was.  Otherwise the stored list is either unchanged or the old list followed
  by the trimmed name, which then was not in the list, is not empty, and neither starts
  nor ends with whitespace.
\<close>

theorem addMeal_trims_input:
  "(list_all isWhiteSpace (newMealInput st) \<longrightarrow> addMeal st = st)
   \<and> (\<exists>pre post. newMealInput st = pre @ trim (newMealInput st) @ post
          \<and> list_all isWhiteSpace pre \<and> list_all isWhiteSpace post)
   \<and> (mealStore (addMeal st) = mealStore st
       \<or> (mealStore (addMeal st) = Some (loadMeals st @ [trim (newMealInput st)])
           \<and> trim (newMealInput st) \<notin> set (loadMeals st)
           \<and> trim (newMealInput st) \<noteq> []
           \<and> \<not> isWhiteSpace (hd (trim (newMealInput st)))
           \<and> \<not> isWhiteSpace (last (trim (newMealInput st)))))"
proof -
  let ?n = "trim (newMealInput st)"
  have blank: "list_all isWhiteSpace (newMealInput st) \<longrightarrow> addMeal st = st"
    by (simp add: addMeal_def trim_Nil_iff [symmetric])
  have store: "mealStore (addMeal st) = mealStore st
       \<or> (mealStore (addMeal st) = Some (loadMeals st @ [?n]) \<and> ?n \<notin> set (loadMeals st)
           \<and> ?n \<noteq> [] \<and> \<not> isWhiteSpace (hd ?n) \<and> \<not> isWhiteSpace (last ?n))"
  proof (cases "?n \<noteq> [] \<and> ?n \<notin> set (loadMeals st)")
    case True
    then have "mealStore (addMeal st) = Some (loadMeals st @ [?n])"
      by (simp add: addMeal_def Let_def saveMeals_def renderMealList_def)
    with True trim_ends [of "newMealInput st"] show ?thesis by simp
  next
    case False
    then have "mealStore (addMeal st) = mealStore st"
      by (auto simp add: addMeal_def Let_def)
    then show ?thesis by simp
  qed
  from blank trim_decompose [of "newMealInput st"] store show ?thesis by blast
qed

theorem addMeal_trims_input_witness:
  "list_all isWhiteSpace (newMealInput (pageLoaded\<lparr>newMealInput := js ''   ''\<rparr>))
   \<and> addMeal (pageLoaded\<lparr>newMealInput := js ''   ''\<rparr>) = pageLoaded\<lparr>newMealInput := js ''   ''\<rparr>
   \<and> mealStore (addMeal (pageLoaded\<lparr>newMealInput := js ''  Fish Soup ''\<rparr>))
       \<noteq> mealStore (pageLoaded\<lparr>newMealInput := js ''  Fish Soup ''\<rparr>)
   \<and> mealStore (addMeal (pageLoaded\<lparr>newMealInput := js ''  Fish Soup ''\<rparr>))
       = Some (defaultMeals @ [js ''Fish Soup''])
   \<and> \<not> isWhiteSpace (hd (js ''Fish Soup'')) \<and> \<not> isWhiteSpace (last (js ''Fish Soup''))"
proof -
  let ?blank = "pageLoaded\<lparr>newMealInput := js ''   ''\<rparr>"
  let ?st = "pageLoaded\<lparr>newMealInput := js ''  Fish Soup ''\<rparr>"
  have h: "list_all isWhiteSpace (newMealInput ?blank)"
    by (simp add: js_def isWhiteSpace_def)
  have same: "addMeal ?blank = ?blank"
    using addMeal_trims_input [of ?blank, THEN conjunct1] h by blast
  have t: "trim (newMealInput ?st) = js ''Fish Soup''"
    by (simp add: trim_def js_def isWhiteSpace_def)
  have lm: "loadMeals ?st = defaultMeals" by (simp add: loadMeals_def pageLoaded_def)
  have nin: "js ''Fish Soup'' \<notin> set defaultMeals" by (simp add: defaultMeals_def js_def)
  have ne: "js ''Fish Soup'' \<noteq> []" by (simp add: js_def)
  have ms: "mealStore ?st = None" by (simp add: pageLoaded_def)
  have "mealStore (addMeal ?st) \<noteq> None"
    unfolding addMeal_def Let_def t lm using nin ne
    by (simp add: saveMeals_def renderMealList_def)
  then have changed: "mealStore (addMeal ?st) \<noteq> mealStore ?st"
    unfolding ms .
  from addMeal_trims_input [of ?st, THEN conjunct2, THEN conjunct2] changed
  have "mealStore (addMeal ?st) = Some (loadMeals ?st @ [trim (newMealInput ?st)])
     \<and> \<not> isWhiteSpace (hd (trim (newMealInput ?st)))
     \<and> \<not> isWhiteSpace (last (trim (newMealInput ?st)))"
    by blast
  then have "mealStore (addMeal ?st) = Some (defaultMeals @ [js ''Fish Soup''])
     \<and> \<not> isWhiteSpace (hd (js ''Fish Soup'')) \<and> \<not> isWhiteSpace (last (js ''Fish Soup''))"
    unfolding t lm .
  with h same changed show ?thesis by (intro conjI) blast+
qed

end
